theory Spec2Isabelle
  imports Complex_Main "HOL-Library.AList"
begin

unbundle bit_operations_syntax

section \<open>JavaScript strings\<close>

text \<open>
  The program is \<^verbatim>\<open>find-enrich.mjs\<close>; the file holds two drafts of it, and the
  definitions below follow the first, more elaborate one (lines 1 to 538).

  A JavaScript string is a sequence of UTF-16 code units. It is modelled as a HOL
  \<^typ>\<open>string\<close>, whose characters are the code units \<open>0x00\<close> to \<open>0xFF\<close>: the model
  covers the strings of that range (ASCII and Latin-1), and the character classes and
  the case mapping below are the JavaScript ones restricted to it. The one place where
  the program makes a code unit of its own is \<^verbatim>\<open>String.fromCharCode\<close> in
  \<^verbatim>\<open>decodeCfEmail\<close>; where that unit is \<open>0x100\<close> or more the model has no string for the
  result, and the functions that depend on it return \<open>None\<close>.
\<close>

definition isDigit :: "char \<Rightarrow> bool" where
  \<comment> \<open>the regular expression class \<^verbatim>\<open>\d\<close>\<close>
  "isDigit c = (c \<in> set ''0123456789'')"

definition isSpace :: "char \<Rightarrow> bool" where
  \<comment> \<open>the class \<^verbatim>\<open>\s\<close>, also what \<^verbatim>\<open>trim\<close> strips: TAB, LF, VT, FF, CR, space, NBSP\<close>
  "isSpace c = (c \<in> set [CHR 0x09, CHR 0x0A, CHR 0x0B, CHR 0x0C, CHR 0x0D, CHR 0x20, CHR 0xA0])"

definition isAsciiLetter :: "char \<Rightarrow> bool" where
  \<comment> \<open>\<^verbatim>\<open>[A-Za-z]\<close>\<close>
  "isAsciiLetter c =
     (c \<in> set ''ABCDEFGHIJKLMNOPQRSTUVWXYZabcdefghijklmnopqrstuvwxyz'')"

definition upperChars :: "char list" where
  \<comment> \<open>the code units that \<^verbatim>\<open>toLowerCase\<close> changes: A-Z, and the Latin-1 capitals
      \<open>0xC0\<close> to \<open>0xDE\<close> but the multiplication sign \<open>0xD7\<close>\<close>
  "upperChars = ''ABCDEFGHIJKLMNOPQRSTUVWXYZ'' @
     [CHR 0xC0, CHR 0xC1, CHR 0xC2, CHR 0xC3, CHR 0xC4, CHR 0xC5, CHR 0xC6, CHR 0xC7, CHR 0xC8, CHR 0xC9, CHR 0xCA, CHR 0xCB,
      CHR 0xCC, CHR 0xCD, CHR 0xCE, CHR 0xCF, CHR 0xD0, CHR 0xD1, CHR 0xD2, CHR 0xD3, CHR 0xD4, CHR 0xD5, CHR 0xD6, CHR 0xD8,
      CHR 0xD9, CHR 0xDA, CHR 0xDB, CHR 0xDC, CHR 0xDD, CHR 0xDE]"

definition lowerChars :: "char list" where
  \<comment> \<open>their images, each 32 code units higher\<close>
  "lowerChars = ''abcdefghijklmnopqrstuvwxyz'' @
     [CHR 0xE0, CHR 0xE1, CHR 0xE2, CHR 0xE3, CHR 0xE4, CHR 0xE5, CHR 0xE6, CHR 0xE7, CHR 0xE8, CHR 0xE9, CHR 0xEA, CHR 0xEB,
      CHR 0xEC, CHR 0xED, CHR 0xEE, CHR 0xEF, CHR 0xF0, CHR 0xF1, CHR 0xF2, CHR 0xF3, CHR 0xF4, CHR 0xF5, CHR 0xF6, CHR 0xF8,
      CHR 0xF9, CHR 0xFA, CHR 0xFB, CHR 0xFC, CHR 0xFD, CHR 0xFE]"

definition lowerChar :: "char \<Rightarrow> char" where
  "lowerChar c = (case map_of (zip upperChars lowerChars) c of Some l \<Rightarrow> l | None \<Rightarrow> c)"

definition toLowerCase :: "string \<Rightarrow> string" where
  "toLowerCase s = map lowerChar s"

definition startsWith :: "string \<Rightarrow> string \<Rightarrow> bool" where
  "startsWith s p = (take (length p) s = p)"

definition endsWith :: "string \<Rightarrow> string \<Rightarrow> bool" where
  "endsWith s p = (length p \<le> length s \<and> drop (length s - length p) s = p)"

definition trim :: "string \<Rightarrow> string" where
  "trim s = rev (dropWhile isSpace (rev (dropWhile isSpace s)))"

function replaceRuns :: "(char \<Rightarrow> bool) \<Rightarrow> string \<Rightarrow> string \<Rightarrow> string" where
  \<comment> \<open>\<^verbatim>\<open>s.replace(/[class]+/g, rep)\<close>: every maximal run of the class becomes \<open>rep\<close>\<close>
  "replaceRuns P rep [] = []"
| "replaceRuns P rep (c # cs) =
     (if P c then rep @ replaceRuns P rep (dropWhile P cs) else c # replaceRuns P rep cs)"
  by pat_completeness auto
termination
  by (relation "measure (\<lambda>(P, rep, s). length s)")
     (auto simp: length_dropWhile_le less_Suc_eq_le)

fun splitOn :: "char \<Rightarrow> string \<Rightarrow> string list" where
  \<comment> \<open>\<^verbatim>\<open>s.split(c)\<close> for a one-character separator: never empty, \<^verbatim>\<open>''.split(' ')\<close> is \<^verbatim>\<open>['']\<close>\<close>
  "splitOn c [] = [[]]"
| "splitOn c (x # xs) =
     (if x = c then [] # splitOn c xs
      else (let r = splitOn c xs in (x # hd r) # tl r))"

function splitRuns :: "(char \<Rightarrow> bool) \<Rightarrow> string \<Rightarrow> string list" where
  \<comment> \<open>\<^verbatim>\<open>s.split(/[class]+/)\<close>: the separators are the maximal runs of the class\<close>
  "splitRuns P [] = [[]]"
| "splitRuns P (x # xs) =
     (if P x then [] # splitRuns P (dropWhile P xs)
      else (let r = splitRuns P xs in (x # hd r) # tl r))"
  by pat_completeness auto
termination
  by (relation "measure (\<lambda>(P, s). length s)")
     (auto simp: length_dropWhile_le less_Suc_eq_le)

fun joinWith :: "string \<Rightarrow> string list \<Rightarrow> string" where
  \<comment> \<open>\<^verbatim>\<open>xs.join(sep)\<close>\<close>
  "joinWith sep [] = []"
| "joinWith sep [x] = x"
| "joinWith sep (x # y # ys) = x @ sep @ joinWith sep (y # ys)"

definition includes_str :: "string \<Rightarrow> string \<Rightarrow> bool" where
  \<comment> \<open>\<^verbatim>\<open>s.includes(t)\<close>: \<open>t\<close> stands in \<open>s\<close> at some offset\<close>
  "includes_str s t = list_ex (\<lambda>i. startsWith (drop i s) t) [0 ..< Suc (length s)]"

definition setAdd :: "'a list \<Rightarrow> 'a \<Rightarrow> 'a list" where
  \<comment> \<open>\<^verbatim>\<open>Set.prototype.add\<close> on a \<^verbatim>\<open>Set\<close> kept as the list of its elements in insertion
      order\<close>
  "setAdd xs x = (if x \<in> set xs then xs else xs @ [x])"

definition setAddAll :: "'a list \<Rightarrow> 'a list \<Rightarrow> 'a list" where
  \<comment> \<open>\<^verbatim>\<open>ys.forEach(y => xs.add(y))\<close>\<close>
  "setAddAll xs ys = foldl setAdd xs ys"

section \<open>Phone numbers\<close>

definition normalizePhone :: "string \<Rightarrow> string" where
  "normalizePhone p =
     (if p = [] then []
      else
        let s = filter (\<lambda>c. c = CHR ''+'' \<or> isDigit c) p;
            s = (if startsWith s ''0044'' then CHR ''+'' # drop 2 s else s);
            s = (if startsWith s ''44'' \<and> \<not> startsWith s ''+'' then CHR ''+'' # s else s)
        in s)"

definition isLikelyPhone :: "string \<Rightarrow> bool" where
  \<comment> \<open>\<^verbatim>\<open>/^\+?\d{10,15}$/\<close>: an optional plus, then 10 to 15 digits and nothing else\<close>
  "isLikelyPhone n =
     (let ds = (case n of c # r \<Rightarrow> if c = CHR ''+'' then r else n | [] \<Rightarrow> n)
      in list_all isDigit ds \<and> 10 \<le> length ds \<and> length ds \<le> 15)"

definition isUkPhone :: "string \<Rightarrow> bool" where
  \<comment> \<open>\<^verbatim>\<open>/^\+44\d{9,11}$/\<close>\<close>
  "isUkPhone n =
     (startsWith n ''+44'' \<and> list_all isDigit (drop 3 n)
      \<and> 9 \<le> length (drop 3 n) \<and> length (drop 3 n) \<le> 11)"

definition phoneScore :: "string \<Rightarrow> rat" where
  "phoneScore n =
     (let s = 0;
          s = (if isUkPhone n then s + 2 else s);
          s = (if 11 \<le> length n \<and> length n \<le> 13 then s + 1 / 2 else s)
      in s)"

text \<open>
  \<^verbatim>\<open>Array.prototype.sort\<close> is stable, and the comparator \<^verbatim>\<open>(a,b) => b.s - a.s\<close> orders
  by falling score: that is the stable insertion sort \<^const>\<open>sort_key\<close> on the negated score.
\<close>

definition pickBestPhone :: "string list \<Rightarrow> string" where
  "pickBestPhone phones =
     (let arr = filter isLikelyPhone (map normalizePhone phones)
      in if arr = [] then []
         else hd (sort_key (\<lambda>n. - phoneScore n) arr))"

section \<open>Domain candidates\<close>

definition cleanName_drop :: "string list" where
  "cleanName_drop =
     [''limited'', ''ltd'', ''plc'', ''llp'', ''inc'', ''corp'', ''corporation'', ''company'',
      ''tech'', ''technologies'', ''technology'', ''solutions'', ''solution'', ''group'',
      ''holdings'', ''services'', ''consulting'', ''consultancy'', ''studio'', ''labs'', ''lab'',
      ''digital'', ''global'', ''international'', ''uk'', ''co'']"

definition cleanName_strip :: "char list" where
  \<comment> \<open>the class \<^verbatim>\<open>[.,/\\'"&()\[\]{}!@#$%^*?+:=]\<close>; \<open>0x5C\<close> is the backslash, \<open>0x27\<close> the
      apostrophe, \<open>0x22\<close> the double quote\<close>
  "cleanName_strip =
     ''.,/'' @ [CHR 0x5C, CHR 0x27, CHR 0x22] @ ''&()[]{}!@#$%^*?+:=''"

definition cleanName :: "string \<Rightarrow> string" where
  "cleanName raw =
     (let s = trim (replaceRuns isSpace '' ''
                 (replaceRuns (\<lambda>c. c \<in> set cleanName_strip) '' '' (toLowerCase raw)))
      in joinWith '' '' (filter (\<lambda>t. t \<notin> set cleanName_drop) (splitOn CHR '' '' s)))"

definition variants :: "string \<Rightarrow> string list" where
  "variants name =
     (let v = setAddAll [] [name, replaceRuns isSpace [] name, replaceRuns isSpace ''-'' name];
          parts = filter (\<lambda>t. t \<noteq> []) (splitOn CHR '' '' name);
          noVowels = replaceRuns isSpace [] (filter (\<lambda>c. c \<notin> set ''aeiou'') name);
          v = (if 5 \<le> length noVowels then setAdd v noVowels else v);
          v = (if 2 \<le> length parts
               then setAddAll v
                      [hd parts @ last parts,
                       hd parts @ ''-'' @ last parts,
                       map hd (butlast parts) @ last parts]
               else v)
      in v)"

definition tldsForCountry :: "string \<Rightarrow> string list" where
  "tldsForCountry country =
     (let common = [''.com'', ''.co.uk'', ''.co'', ''.ai'', ''.io'', ''.net'', ''.org'', ''.uk'']
      in if country = [] then common
         else if toLowerCase country \<in> set [''uk'', ''united kingdom'', ''england'', ''scotland'',
                                               ''wales'', ''northern ireland'']
         then [''.co.uk'', ''.uk'', ''.com'', ''.co'', ''.ai'', ''.io'', ''.net'', ''.org'']
         else common)"

definition score :: "string \<Rightarrow> int" where
  "score d =
     (let s = 0;
          s = (if endsWith d ''.co.uk'' then s + 6 else s);
          s = (if endsWith d ''.com'' then s + 5 else s);
          s = (if CHR ''-'' \<in> set d then s - 1 else s);
          s = (if length d \<le> 12 then s + 1 else s)
      in s)"

definition candidates_for :: "string \<Rightarrow> string \<Rightarrow> string list" where
  \<comment> \<open>the two nested loops filling \<^verbatim>\<open>cands\<close>, and the sort by falling score\<close>
  "candidates_for cleaned country =
     sort_key (\<lambda>d. - score d)
       (concat (map (\<lambda>n. map (\<lambda>t. n @ t) (tldsForCountry country)) (variants cleaned)))"

section \<open>The world outside the program\<close>

text \<open>
  The DNS resolver, the HTTP client (axios), the HTML parser (cheerio) and the URL class
  are libraries. Each is a function of the world the program runs in: a request has one
  answer, and a rejected promise or a thrown error is \<open>None\<close>.
\<close>

record page =
  mailtoHrefs :: "string list"  \<comment> \<open>the \<^verbatim>\<open>href\<close> of each \<^verbatim>\<open>a[href^="mailto:"]\<close>, in document order\<close>
  telHrefs :: "string list"  \<comment> \<open>the \<^verbatim>\<open>href\<close> of each \<^verbatim>\<open>a[href^="tel:"]\<close>\<close>
  cfemails :: "string list"  \<comment> \<open>the \<^verbatim>\<open>data-cfemail\<close> of each \<^verbatim>\<open>[data-cfemail]\<close>\<close>
  dataEmails :: "string list"  \<comment> \<open>the \<^verbatim>\<open>data-email\<close> of each \<^verbatim>\<open>[data-email]\<close>\<close>
  textEmails :: "string list"  \<comment> \<open>\<^verbatim>\<open>$.text().match(EMAIL_RE) || []\<close>\<close>
  textPhones :: "string list"  \<comment> \<open>\<^verbatim>\<open>$.text().match(PHONE_RE) || []\<close>\<close>
  hrefs :: "string list"  \<comment> \<open>the \<^verbatim>\<open>href\<close> of each \<^verbatim>\<open>a[href]\<close>\<close>

record world =
  resolve4 :: "string \<Rightarrow> nat option"  \<comment> \<open>the number of A records\<close>
  resolve6 :: "string \<Rightarrow> nat option"  \<comment> \<open>the number of AAAA records\<close>
  resolveMx :: "string \<Rightarrow> nat option"  \<comment> \<open>the number of MX records\<close>
  httpHead :: "string \<Rightarrow> nat option"  \<comment> \<open>the status of \<^verbatim>\<open>axios.head(url)\<close>\<close>
  httpGet :: "string \<Rightarrow> (nat \<times> string option) option"
    \<comment> \<open>the status of the probing \<^verbatim>\<open>axios.get(url)\<close> and its body, when that is a string\<close>
  getHtml :: "string \<Rightarrow> string"
    \<comment> \<open>\<^verbatim>\<open>getHtml(url)\<close>: the body of the page, the empty string on any failure\<close>
  load :: "string \<Rightarrow> page"  \<comment> \<open>what the selectors find in the parsed markup\<close>
  makeAbs :: "string \<Rightarrow> string \<Rightarrow> string"
    \<comment> \<open>\<^verbatim>\<open>makeAbs(baseUrl, href)\<close>: the absolute URL, the empty string when there is none\<close>

section \<open>Domain verification and selection\<close>

definition httpAlive :: "world \<Rightarrow> string \<Rightarrow> bool" where
  "httpAlive w d =
     (let tries = [''https://'' @ d, ''https://www.'' @ d, ''http://'' @ d, ''http://www.'' @ d]
      in if list_ex (\<lambda>url. case httpHead w url of
                               None \<Rightarrow> False
                             | Some status \<Rightarrow> 0 < status \<and> status < 600) tries
         then True
         else list_ex (\<lambda>url. case httpGet w url of
                                 None \<Rightarrow> False
                               | Some (status, body) \<Rightarrow>
                                   (case body of None \<Rightarrow> False | Some b \<Rightarrow> 100 < length b)
                                   \<or> (200 \<le> status \<and> status < 400)) tries)"

definition dnsAlive :: "world \<Rightarrow> string \<Rightarrow> bool" where
  "dnsAlive w d =
     list_ex (\<lambda>r. case r of None \<Rightarrow> False | Some n \<Rightarrow> 0 < n)
       [resolve4 w d, resolve6 w d, resolveMx w d]"

record verification =
  domain :: string
  dnsOk :: bool
  httpOk :: bool
  ok :: bool

definition verify :: "world \<Rightarrow> string \<Rightarrow> verification" where
  "verify w d =
     (let dns = dnsAlive w d; http = httpAlive w d
      in \<lparr>domain = d, dnsOk = dns, httpOk = http, ok = dns \<or> http\<rparr>)"

definition isStrong :: "verification \<Rightarrow> bool" where
  \<comment> \<open>the predicate of \<^verbatim>\<open>res.find\<close>\<close>
  "isStrong r = (ok r \<and> (endsWith (domain r) ''.co.uk'' \<or> endsWith (domain r) ''.com''))"

definition verifiedOf :: "verification list \<Rightarrow> verification list" where
  \<comment> \<open>\<^verbatim>\<open>checked.filter(r => r.ok).sort((a,b)=>score(b.domain)-score(a.domain))\<close>\<close>
  "verifiedOf checked = sort_key (\<lambda>r. - score (domain r)) (filter ok checked)"

record selection =
  candidates :: "verification list"
  pick :: "verification option"

text \<open>
  The loop of \<^verbatim>\<open>bestDomainFor\<close>, from index \<open>i\<close> with the results \<open>checked\<close> so far.
  \<^verbatim>\<open>cands.slice(i, i+5)\<close> is \<open>take 5 (drop i cands)\<close>. When a strong result is found,
  \<^verbatim>\<open>verified[0] || strong\<close> is the first verified result, or \<open>strong\<close> were there none.
\<close>

function bestDomainLoop ::
  "world \<Rightarrow> string list \<Rightarrow> nat \<Rightarrow> nat \<Rightarrow> verification list \<Rightarrow> selection" where
  "bestDomainLoop w cands topN i checked =
     (if i < topN then
        (let batch = take 5 (drop i cands);
             res = map (verify w) batch;
             checked = checked @ res
         in case find isStrong res of
              Some strong \<Rightarrow>
                \<lparr>candidates = checked,
                 pick = (case verifiedOf checked of [] \<Rightarrow> Some strong | v # _ \<Rightarrow> Some v)\<rparr>
            | None \<Rightarrow> bestDomainLoop w cands topN (i + 5) checked)
      else
        \<lparr>candidates = checked,
         pick = (case verifiedOf checked of [] \<Rightarrow> None | v # _ \<Rightarrow> Some v)\<rparr>)"
  by pat_completeness auto
termination
  by (relation "measure (\<lambda>(w, cands, topN, i, checked). topN - i)") auto

definition bestDomainFor :: "world \<Rightarrow> string \<Rightarrow> string \<Rightarrow> selection" where
  "bestDomainFor w name country =
     (let cleaned = cleanName name
      in if cleaned = [] then \<lparr>candidates = [], pick = None\<rparr>
         else
           (let cands = candidates_for cleaned country;
                topN = min 40 (length cands)
            in bestDomainLoop w cands topN 0 []))"

section \<open>Email ranking\<close>

definition emailDomainPart :: "string \<Rightarrow> string" where
  \<comment> \<open>\<^verbatim>\<open>e.split('@')[1] || ''\<close>: the text between the first and the second \<open>@\<close>\<close>
  "emailDomainPart e = (case splitOn CHR ''@'' e of _ # d # _ \<Rightarrow> d | _ \<Rightarrow> [])"

definition onPreferred :: "string \<Rightarrow> string \<Rightarrow> bool" where
  \<comment> \<open>the test of the partition loop, with \<^verbatim>\<open>d = e.split('@')[1]?.toLowerCase() || ''\<close>\<close>
  "onPreferred preferredDomain e =
     (let d = toLowerCase (emailDomainPart e)
      in preferredDomain \<noteq> [] \<and> d \<noteq> []
         \<and> (endsWith preferredDomain d \<or> endsWith d preferredDomain))"

definition freeDomains :: "string list" where
  "freeDomains = [''gmail.com'', ''yahoo.com'', ''hotmail.com'', ''outlook.com'', ''live.com'',
                  ''aol.com'', ''icloud.com'', ''proton.me'', ''protonmail.com'']"

definition ranks :: "string list" where
  "ranks = [''info@'', ''contact@'', ''hello@'', ''support@'', ''enquiries@'']"

definition emailScore :: "string \<Rightarrow> rat" where
  "emailScore e =
     (let lower = toLowerCase e;
          s = foldl (\<lambda>s (i, p). if startsWith lower p then s + of_nat (length ranks - i) else s)
                0 (zip [0, 1, 2, 3, 4] ranks);
          s = (if CHR ''+'' \<notin> set lower then s + 1 / 2 else s);
          d = emailDomainPart lower;
          s = (if d \<notin> set freeDomains then s + 1 / 2 else s)
      in s)"

definition emailPool :: "string list \<Rightarrow> string \<Rightarrow> string list" where
  \<comment> \<open>\<^verbatim>\<open>prefer.length ? prefer : others\<close>, both in the order of \<^verbatim>\<open>arr\<close>\<close>
  "emailPool arr preferredDomain =
     (let prefer = filter (onPreferred preferredDomain) arr;
          others = filter (\<lambda>e. \<not> onPreferred preferredDomain e) arr
      in if prefer \<noteq> [] then prefer else others)"

definition pickBestEmail :: "string list \<Rightarrow> string \<Rightarrow> string" where
  "pickBestEmail emails preferredDomain =
     (let arr = filter (\<lambda>e. e \<noteq> []) (map trim emails)
      in if arr = [] then []
         else hd (sort_key (\<lambda>e. - emailScore e) (emailPool arr preferredDomain)))"

section \<open>Cloudflare email deobfuscation\<close>

definition digitOf :: "char \<Rightarrow> nat option" where
  "digitOf c =
     map_of (zip ''0123456789abcdef'' [0, 1, 2, 3, 4, 5, 6, 7, 8, 9, 10, 11, 12, 13, 14, 15]
             @ zip ''ABCDEF'' [10, 11, 12, 13, 14, 15]) c"

definition isRadixDigit :: "nat \<Rightarrow> char \<Rightarrow> bool" where
  "isRadixDigit radix c = (case digitOf c of Some v \<Rightarrow> v < radix | None \<Rightarrow> False)"

definition parseInt :: "string \<Rightarrow> nat \<Rightarrow> int option" where
  \<comment> \<open>\<^verbatim>\<open>parseInt(str, radix)\<close> for the radices 10 and 16; \<open>None\<close> is \<^verbatim>\<open>NaN\<close>. Leading white
      space is skipped, then a sign, then with radix 16 a prefix \<^verbatim>\<open>0x\<close>; the number is the
      longest run of digits that follows.\<close>
  "parseInt str radix =
     (let s = dropWhile isSpace str;
          neg = (s \<noteq> [] \<and> hd s = CHR ''-'');
          s = (if s \<noteq> [] \<and> (hd s = CHR ''+'' \<or> hd s = CHR ''-'') then tl s else s);
          s = (if radix = 16 \<and> (startsWith s ''0x'' \<or> startsWith s ''0X'') then drop 2 s else s);
          z = takeWhile (isRadixDigit radix) s;
          n = foldl (\<lambda>acc c. acc * radix + (case digitOf c of Some v \<Rightarrow> v | None \<Rightarrow> 0)) 0 z
      in if z = [] then None else Some (if neg then - int n else int n))"

fun chunks2 :: "string \<Rightarrow> string list" where
  \<comment> \<open>\<^verbatim>\<open>hex.slice(n, n + 2)\<close> for \<open>n = 0, 2, 4, ...\<close> below the length\<close>
  "chunks2 [] = []"
| "chunks2 [a] = [[a]]"
| "chunks2 (a # b # r) = [a, b] # chunks2 r"

definition toInt32 :: "int option \<Rightarrow> int" where
  \<comment> \<open>the operand of \<^verbatim>\<open>^\<close>: \<^verbatim>\<open>NaN\<close> is 0; \<^verbatim>\<open>parseInt\<close> of two characters lies between
      -15 and 255, which is itself as a 32-bit integer\<close>
  "toInt32 v = (case v of None \<Rightarrow> 0 | Some n \<Rightarrow> n)"

definition decodeCfEmailCodes :: "string \<Rightarrow> int list" where
  \<comment> \<open>the UTF-16 code units of the result: \<^verbatim>\<open>String.fromCharCode\<close> reduces modulo \<open>2^16\<close>\<close>
  "decodeCfEmailCodes hex =
     (let e = toInt32 (parseInt (take 2 hex) 16)
      in map (\<lambda>h. ((toInt32 (parseInt h 16)) XOR e) mod 65536) (chunks2 (drop 2 hex)))"

definition fromCharCode :: "int \<Rightarrow> char option" where
  \<comment> \<open>the character of a code unit, \<open>None\<close> for a code unit that is not one of this model\<close>
  "fromCharCode u = (if 0 \<le> u \<and> u < 256 then Some (char_of u) else None)"

definition decodeCfEmail :: "string \<Rightarrow> string option" where
  \<comment> \<open>the result as a string of this model; \<open>None\<close> when one of its code units is \<open>0x100\<close>
      or more, which happens when the key or a chunk parses as a negative number. Nothing
      in the \<^verbatim>\<open>try\<close> block throws on a string\<close>
  "decodeCfEmail hex = those (map fromCharCode (decodeCfEmailCodes hex))"

section \<open>Contact extraction and discovery\<close>

definition stripPrefixCI :: "string \<Rightarrow> string \<Rightarrow> string" where
  \<comment> \<open>\<^verbatim>\<open>s.replace(/^prefix/i, '')\<close> for a lower-case ASCII prefix\<close>
  "stripPrefixCI prefix s =
     (if toLowerCase (take (length prefix) s) = prefix then drop (length prefix) s else s)"

record signals =
  emails :: "string list"
  phones :: "string list"

definition extractContactsFromUrl :: "world \<Rightarrow> string \<Rightarrow> signals option" where
  \<comment> \<open>\<open>None\<close> when one of the decoded \<^verbatim>\<open>data-cfemail\<close> attributes is no string of this
      model\<close>
  "extractContactsFromUrl w url =
     (let html = getHtml w url
      in if html = [] then Some \<lparr>emails = [], phones = []\<rparr>
         else
           (let pg = load w html;
                es = foldl (\<lambda>es h. let m = stripPrefixCI ''mailto:'' h
                                    in if m \<noteq> [] then setAdd es (trim m) else es)
                       [] (mailtoHrefs pg);
                ps = foldl (\<lambda>ps h. let t = stripPrefixCI ''tel:'' h
                                    in if t \<noteq> [] then setAdd ps (trim t) else ps)
                       [] (telHrefs pg)
            in case those (map decodeCfEmail (cfemails pg)) of
                 None \<Rightarrow> None
               | Some decs \<Rightarrow>
                   (let es = foldl (\<lambda>es dec. if dec \<noteq> [] then setAdd es (trim dec) else es)
                               es decs;
                        es = foldl (\<lambda>es a. let m = trim a
                                            in if m \<noteq> [] then setAdd es m else es)
                               es (dataEmails pg);
                        es = setAddAll es (textEmails pg);
                        ps = setAddAll ps (textPhones pg)
                    in Some \<lparr>emails = es, phones = ps\<rparr>)))"

record crawl =
  seen :: "string list"
  foundEmails :: "string list"
  foundPhones :: "string list"

definition visit :: "world \<Rightarrow> crawl \<Rightarrow> string \<Rightarrow> crawl option" where
  \<comment> \<open>the body both crawling loops share after their guards\<close>
  "visit w st url =
     (case extractContactsFromUrl w url of
        None \<Rightarrow> None
      | Some c \<Rightarrow>
          Some \<lparr>seen = setAdd (seen st) url,
                foundEmails = setAddAll (foundEmails st) (emails c),
                foundPhones = setAddAll (foundPhones st) (phones c)\<rparr>)"

definition seedPaths :: "string list" where
  "seedPaths = [[], ''contact'', ''contact-us'', ''contacts'', ''about'', ''about-us'',
                ''team'', ''imprint'', ''legal'', ''privacy'']"

definition crawlSeeds :: "world \<Rightarrow> string list \<Rightarrow> crawl option" where
  \<comment> \<open>the loop over \<^verbatim>\<open>seeds\<close>\<close>
  "crawlSeeds w seeds =
     foldl (\<lambda>acc url. case acc of
                         None \<Rightarrow> None
                       | Some st \<Rightarrow>
                           if url = [] \<or> url \<in> set (seen st) then Some st else visit w st url)
       (Some \<lparr>seen = [], foundEmails = [], foundPhones = []\<rparr>) seeds"

definition crawlInternal :: "world \<Rightarrow> crawl \<Rightarrow> string list \<Rightarrow> crawl option" where
  \<comment> \<open>the loop over \<^verbatim>\<open>internal\<close> with its counter: at most three pages not seen before\<close>
  "crawlInternal w st0 internal =
     map_option snd
       (foldl (\<lambda>acc u. case acc of
                          None \<Rightarrow> None
                        | Some (count, st) \<Rightarrow>
                            if 3 \<le> count then Some (count, st)
                            else if u \<in> set (seen st) then Some (count, st)
                            else map_option (\<lambda>st'. (count + 1, st')) (visit w st u))
          (Some (0 :: nat, st0)) internal)"

record contacts =
  email :: string
  phone :: string
  brandText :: string

definition crawlSite :: "world \<Rightarrow> string \<Rightarrow> crawl option" where
  \<comment> \<open>\<^verbatim>\<open>discoverContacts\<close> up to its \<^verbatim>\<open>return\<close>: the sets \<^verbatim>\<open>seen\<close>, \<^verbatim>\<open>foundEmails\<close> and
      \<^verbatim>\<open>foundPhones\<close> after the two loops\<close>
  "crawlSite w d =
     (let baseUrl = ''https://'' @ d @ ''/'';
          seeds = map (makeAbs w baseUrl) seedPaths;
          homeHtml = getHtml w baseUrl
      in case crawlSeeds w seeds of
           None \<Rightarrow> None
         | Some st \<Rightarrow>
             if homeHtml \<noteq> [] then
               (let internal =
                      foldl (\<lambda>acc h. let abs = makeAbs w baseUrl h
                                      in if abs \<noteq> [] \<and> startsWith abs baseUrl
                                         then setAdd acc abs else acc)
                        [] (hrefs (load w homeHtml))
                in crawlInternal w st internal)
             else Some st)"

definition discoverContacts :: "world \<Rightarrow> string \<Rightarrow> contacts option" where
  \<comment> \<open>the object that \<^verbatim>\<open>discoverContacts\<close> returns, built from the sets of \<^const>\<open>crawlSite\<close>\<close>
  "discoverContacts w d =
     (let baseUrl = ''https://'' @ d @ ''/'';
          homeHtml = getHtml w baseUrl
      in case crawlSite w d of
           None \<Rightarrow> None
         | Some st \<Rightarrow>
             Some \<lparr>email = pickBestEmail (foundEmails st) d,
                   phone = pickBestPhone (foundPhones st),
                   brandText = homeHtml\<rparr>)"

section \<open>Brand matching\<close>

definition isLetterOrNumber :: "char \<Rightarrow> bool" where
  \<comment> \<open>the classes \<^verbatim>\<open>\p{L}\<close> and \<^verbatim>\<open>\p{N}\<close> below \<open>0x100\<close>: the ASCII letters and digits, the
      ordinal indicators, the micro sign, the superscript digits, the fractions, and the
      Latin-1 letters\<close>
  "isLetterOrNumber c =
     (isAsciiLetter c \<or> isDigit c
      \<or> c \<in> set [CHR 0xAA, CHR 0xB5, CHR 0xBA, CHR 0xB2, CHR 0xB3, CHR 0xB9, CHR 0xBC, CHR 0xBD,
                  CHR 0xBE, CHR 0xDF, CHR 0xFF]
      \<or> c \<in> set upperChars \<or> c \<in> set lowerChars)"

definition tokenizeCompany_drop :: "string list" where
  "tokenizeCompany_drop =
     [''limited'', ''ltd'', ''plc'', ''llp'', ''inc'', ''corp'', ''corporation'', ''company'',
      ''group'', ''holdings'', ''services'', ''uk'', ''co'', ''cic'']"

definition tokenizeCompany :: "string \<Rightarrow> string list" where
  "tokenizeCompany name =
     filter (\<lambda>t. t \<notin> set tokenizeCompany_drop)
       (filter (\<lambda>t. t \<noteq> [])
          (splitRuns isSpace
             (map (\<lambda>c. if isLetterOrNumber c \<or> isSpace c \<or> c = CHR ''-'' then c else CHR '' '')
                (toLowerCase name))))"

definition brandMatchScore :: "string \<Rightarrow> string \<Rightarrow> rat" where
  "brandMatchScore company htmlText =
     (if company = [] \<or> htmlText = [] then 0
      else
        (let tokens = tokenizeCompany company
         in if tokens = [] then 0
            else
              (let text = toLowerCase htmlText;
                   hits = length (filter (\<lambda>t. 3 \<le> length t \<and> includes_str text t) tokens)
               in of_nat hits / of_nat (length tokens))))"

section \<open>Industry from the SIC code\<close>

text \<open>
  The section names hold the em dash U+2014, which is outside the code units of this
  model. It is written as the three bytes of its UTF-8 form; the program only compares
  and joins the names.
\<close>

definition emDash :: string where
  "emDash = [CHR 0xE2, CHR 0x80, CHR 0x94]"

definition SIC_SECTIONS :: "((int \<times> int) \<times> string) list" where
  "SIC_SECTIONS =
     [((1, 3), ''A '' @ emDash @ '' Agriculture, Forestry & Fishing''),
      ((5, 9), ''B '' @ emDash @ '' Mining & Quarrying''),
      ((10, 33), ''C '' @ emDash @ '' Manufacturing''),
      ((35, 35), ''D '' @ emDash @ '' Electricity, Gas, Steam & Air Conditioning''),
      ((36, 39), ''E '' @ emDash @ '' Water Supply; Sewerage, Waste Management & Remediation''),
      ((41, 43), ''F '' @ emDash @ '' Construction''),
      ((45, 47), ''G '' @ emDash
                 @ '' Wholesale & Retail Trade; Repair of Motor Vehicles & Motorcycles''),
      ((49, 53), ''H '' @ emDash @ '' Transportation & Storage''),
      ((55, 56), ''I '' @ emDash @ '' Accommodation & Food Service Activities''),
      ((58, 63), ''J '' @ emDash @ '' Information & Communication''),
      ((64, 66), ''K '' @ emDash @ '' Financial & Insurance Activities''),
      ((68, 68), ''L '' @ emDash @ '' Real Estate Activities''),
      ((69, 75), ''M '' @ emDash @ '' Professional, Scientific & Technical Activities''),
      ((77, 82), ''N '' @ emDash @ '' Administrative & Support Service Activities''),
      ((84, 84), ''O '' @ emDash
                 @ '' Public Administration & Defence; Compulsory Social Security''),
      ((85, 85), ''P '' @ emDash @ '' Education''),
      ((86, 88), ''Q '' @ emDash @ '' Human Health & Social Work Activities''),
      ((90, 93), ''R '' @ emDash @ '' Arts, Entertainment & Recreation''),
      ((94, 96), ''S '' @ emDash @ '' Other Service Activities''),
      ((97, 98), ''T '' @ emDash @ '' Activities of Households as Employers; ''
                 @ ''Undifferentiated Goods- & Services-Producing Activities of Households ''
                 @ ''for Own Use''),
      ((99, 99), ''U '' @ emDash @ '' Activities of Extraterritorial Organisations & Bodies'')]"

definition lookupIndustryFromSICCode :: "string \<Rightarrow> string" where
  "lookupIndustryFromSICCode sicCode =
     (if sicCode = [] then []
      else
        (case parseInt (take 2 (trim sicCode)) 10 of
           None \<Rightarrow> []
         | Some two \<Rightarrow>
             (case find (\<lambda>s. fst (fst s) \<le> two \<and> two \<le> snd (fst s)) SIC_SECTIONS of
                Some match \<Rightarrow> snd match
              | None \<Rightarrow> [])))"

datatype fieldValue = Str string | Arr "string list"

definition truthy :: "fieldValue option \<Rightarrow> bool" where
  \<comment> \<open>a missing field and the empty string are falsy; an array is truthy, also when empty\<close>
  "truthy v = (case v of None \<Rightarrow> False | Some (Str s) \<Rightarrow> s \<noteq> [] | Some (Arr xs) \<Rightarrow> True)"

definition deriveIndustryFromSICField :: "fieldValue option \<Rightarrow> string" where
  "deriveIndustryFromSICField sicFieldValue =
     (if \<not> truthy sicFieldValue then []
      else
        (let values = (case sicFieldValue of
                         Some (Arr xs) \<Rightarrow> xs
                       | Some (Str s) \<Rightarrow> splitRuns (\<lambda>c. c \<in> set '',;/'' \<or> isSpace c) s
                       | None \<Rightarrow> []);
             labels = foldl (\<lambda>labels raw. let label = lookupIndustryFromSICCode raw
                                            in if label \<noteq> [] then setAdd labels label else labels)
                        [] values
         in joinWith '' | '' labels))"

section \<open>Processing one record\<close>

record env =
  AIRTABLE_COMPANY_FIELD :: string
  AIRTABLE_DOMAIN_FIELD :: string
  AIRTABLE_EMAIL_FIELD :: string
  AIRTABLE_PHONE_FIELD :: string
  AIRTABLE_SIC_FIELD :: string
  AIRTABLE_INDUSTRY_FIELD :: string
  AIRTABLE_STATUS_FIELD :: string
  AIRTABLE_LAST_ENRICHED_AT_FIELD :: string
  AIRTABLE_COUNTRY_FIELD :: string

definition defaultEnv :: env where
  \<comment> \<open>the defaults of the destructuring of \<^verbatim>\<open>process.env\<close>\<close>
  "defaultEnv =
     \<lparr>AIRTABLE_COMPANY_FIELD = ''Company'',
      AIRTABLE_DOMAIN_FIELD = ''Domain'',
      AIRTABLE_EMAIL_FIELD = ''Email'',
      AIRTABLE_PHONE_FIELD = ''Phone'',
      AIRTABLE_SIC_FIELD = ''SIC'',
      AIRTABLE_INDUSTRY_FIELD = ''Industry'',
      AIRTABLE_STATUS_FIELD = ''Enrichment Status'',
      AIRTABLE_LAST_ENRICHED_AT_FIELD = ''Last Enriched At'',
      AIRTABLE_COUNTRY_FIELD = []\<rparr>"

type_synonym airtableRecord = "string \<Rightarrow> fieldValue option"

definition getField :: "airtableRecord \<Rightarrow> string \<Rightarrow> string" where
  \<comment> \<open>\<^verbatim>\<open>v[0]\<close> of an empty array is \<^verbatim>\<open>undefined\<close>, which every reader of the result
      treats as it treats the empty string (a truth test, or \<^verbatim>\<open>|| ''\<close>)\<close>
  "getField rec field =
     (case rec field of
        None \<Rightarrow> []
      | Some (Str s) \<Rightarrow> s
      | Some (Arr xs) \<Rightarrow> (case xs of [] \<Rightarrow> [] | x # _ \<Rightarrow> x))"

definition statusNote :: "string \<Rightarrow> string \<Rightarrow> string \<Rightarrow> bool option \<Rightarrow> string" where
  \<comment> \<open>the status block; \<open>brandOk\<close> is \<^verbatim>\<open>rec.__BRAND_OK\<close>, \<open>None\<close> when it was never set\<close>
  "statusNote domain' email' phone' brandOk =
     (if domain' = [] \<and> email' = [] \<and> phone' = [] then ''No domain or contacts found''
      else if domain' \<noteq> [] \<and> email' = [] \<and> phone' = [] then ''Domain only''
      else if domain' \<noteq> [] \<and> (email' \<noteq> [] \<or> phone' \<noteq> []) then
        (if brandOk \<noteq> None \<and> brandOk = Some False
         then ''Domain only (unverified brand match)''
         else ''OK'')
      else ''Partial'')"

record resolved =
  r_email :: string
  r_phone :: string
  r_brandOk :: "bool option"

definition applyContacts :: "string \<Rightarrow> string \<Rightarrow> string \<Rightarrow> contacts \<Rightarrow> resolved" where
  \<comment> \<open>step 2 of \<^verbatim>\<open>processRecord\<close> after \<^verbatim>\<open>discoverContacts\<close> has returned \<open>c\<close>;
      \<^verbatim>\<open>bm >= 0.4\<close> is exact on the quotient of two string lengths\<close>
  "applyContacts company email' phone' c =
     (let bm = brandMatchScore company (brandText c);
          BRAND_OK = (2 / 5 \<le> bm);
          email' = (if email' = [] \<and> email c \<noteq> [] then email c else email');
          phone' = (if phone' = [] \<and> phone c \<noteq> [] then phone c else phone')
      in \<lparr>r_email = email', r_phone = phone', r_brandOk = Some BRAND_OK\<rparr>)"

record enrichment =
  res_domain :: string
  res_email :: string
  res_phone :: string
  res_industry :: string
  res_brandOk :: "bool option"
  res_status :: string

definition enrich :: "env \<Rightarrow> world \<Rightarrow> airtableRecord \<Rightarrow> enrichment option" where
  \<comment> \<open>\<^verbatim>\<open>processRecord\<close> up to the status: the values of its variables where the patch is
      built\<close>
  "enrich e w rec =
     (let company = getField rec (AIRTABLE_COMPANY_FIELD e);
          country = (if AIRTABLE_COUNTRY_FIELD e \<noteq> []
                     then getField rec (AIRTABLE_COUNTRY_FIELD e) else []);
          sicRaw = (if AIRTABLE_SIC_FIELD e \<noteq> [] then rec (AIRTABLE_SIC_FIELD e) else None);
          domain' = getField rec (AIRTABLE_DOMAIN_FIELD e);
          email' = getField rec (AIRTABLE_EMAIL_FIELD e);
          phone' = getField rec (AIRTABLE_PHONE_FIELD e);
          industry = getField rec (AIRTABLE_INDUSTRY_FIELD e);
          domain' = (if domain' = [] then
                       (case pick (bestDomainFor w company country) of
                          Some p \<Rightarrow> domain p
                        | None \<Rightarrow> domain')
                     else domain');
          r = (if domain' \<noteq> [] \<and> (email' = [] \<or> phone' = [])
               then map_option (applyContacts company email' phone')
                      (discoverContacts w domain')
               else Some \<lparr>r_email = email', r_phone = phone', r_brandOk = None\<rparr>);
          industry = (if industry = [] \<and> truthy sicRaw then
                        (let derived = deriveIndustryFromSICField sicRaw
                         in if derived \<noteq> [] then derived else industry)
                      else industry)
      in map_option
           (\<lambda>r. \<lparr>res_domain = domain', res_email = r_email r, res_phone = r_phone r,
                  res_industry = industry, res_brandOk = r_brandOk r,
                  res_status = statusNote domain' (r_email r) (r_phone r) (r_brandOk r)\<rparr>)
           r)"

definition writeBack :: "env \<Rightarrow> string \<Rightarrow> enrichment \<Rightarrow> (string \<times> string) list" where
  \<comment> \<open>the block \<^verbatim>\<open>Write back\<close>: the patch as the list of its entries in insertion order,
      an assignment to a key it holds replacing the value in place\<close>
  "writeBack e now r =
     (let patch = [];
          patch = (if res_domain r \<noteq> []
                   then AList.update (AIRTABLE_DOMAIN_FIELD e) (res_domain r) patch else patch);
          patch = (if res_email r \<noteq> []
                   then AList.update (AIRTABLE_EMAIL_FIELD e) (res_email r) patch else patch);
          patch = (if res_phone r \<noteq> []
                   then AList.update (AIRTABLE_PHONE_FIELD e) (res_phone r) patch else patch);
          patch = (if res_industry r \<noteq> []
                   then AList.update (AIRTABLE_INDUSTRY_FIELD e) (res_industry r) patch
                   else patch);
          patch = AList.update (AIRTABLE_STATUS_FIELD e) (res_status r) patch;
          patch = AList.update (AIRTABLE_LAST_ENRICHED_AT_FIELD e) now patch
      in patch)"

definition processRecord ::
  "env \<Rightarrow> world \<Rightarrow> string \<Rightarrow> airtableRecord \<Rightarrow> (string \<times> string) list option" where
  \<comment> \<open>the patch that \<^verbatim>\<open>processRecord\<close> writes back (or logs, on a dry run); \<open>now\<close> is the
      result of \<^verbatim>\<open>nowIso()\<close>\<close>
  "processRecord e w now rec = map_option (writeBack e now) (enrich e w rec)"

section \<open>The notions the properties are stated with\<close>

definition digitCount :: "string \<Rightarrow> nat" where
  \<comment> \<open>how many digits a string holds\<close>
  "digitCount s = length (filter isDigit s)"

definition isEmailLocalChar :: "char \<Rightarrow> bool" where
  \<comment> \<open>\<^verbatim>\<open>[A-Z0-9._%+-]\<close> under the flag \<^verbatim>\<open>i\<close>\<close>
  "isEmailLocalChar c = (isAsciiLetter c \<or> isDigit c \<or> c \<in> set ''._%+-'')"

definition isEmailDomainChar :: "char \<Rightarrow> bool" where
  \<comment> \<open>\<^verbatim>\<open>[A-Z0-9.-]\<close> under the flag \<^verbatim>\<open>i\<close>\<close>
  "isEmailDomainChar c = (isAsciiLetter c \<or> isDigit c \<or> c \<in> set ''.-'')"

definition emailReAt :: "string \<Rightarrow> bool" where
  \<comment> \<open>\<^verbatim>\<open>EMAIL_RE\<close> matches at the start of \<open>s\<close>: a run of local characters up to an \<open>@\<close>,
      then a run of domain characters that holds, after its first character, a dot
      followed by two letters\<close>
  "emailReAt s =
     (let l = takeWhile isEmailLocalChar s
      in l \<noteq> [] \<and>
         (case drop (length l) s of
            [] \<Rightarrow> False
          | a # r \<Rightarrow>
              a = CHR ''@'' \<and>
              (let dm = takeWhile isEmailDomainChar r
               in list_ex (\<lambda>j. dm ! j = CHR ''.'' \<and> isAsciiLetter (dm ! (j + 1))
                                \<and> isAsciiLetter (dm ! (j + 2)))
                    [1 ..< length dm - 2])))"

definition matchesEmailRe :: "string \<Rightarrow> bool" where
  \<comment> \<open>\<^verbatim>\<open>EMAIL_RE.test(s)\<close>: the expression is not anchored, it matches at some offset\<close>
  "matchesEmailRe s = list_ex (\<lambda>i. emailReAt (drop i s)) [0 ..< length s]"

function batches5 :: "'a list \<Rightarrow> 'a list list" where
  \<comment> \<open>a list cut into batches of five, the last one shorter when the length asks for it\<close>
  "batches5 xs = (if xs = [] then [] else take 5 xs # batches5 (drop 5 xs))"
  by pat_completeness auto
termination
  by (relation "measure length") auto

fun bestOf :: "verification list \<Rightarrow> verification option" where
  \<comment> \<open>the result with the highest score, the earliest one among equals\<close>
  "bestOf [] = None"
| "bestOf (v # vs) =
     (case bestOf vs of
        None \<Rightarrow> Some v
      | Some b \<Rightarrow> if score (domain v) < score (domain b) then Some b else Some v)"

definition bestAlive :: "verification list \<Rightarrow> verification option" where
  \<comment> \<open>the best-scored alive candidate among the checked ones, \<open>None\<close> when none is alive\<close>
  "bestAlive checked = bestOf (filter ok checked)"

definition hasStrongHit :: "world \<Rightarrow> string list \<Rightarrow> bool" where
  \<comment> \<open>some candidate of the batch is verified alive and ends in \<^verbatim>\<open>.co.uk\<close> or \<^verbatim>\<open>.com\<close>\<close>
  "hasStrongHit w batch =
     list_ex (\<lambda>d. ok (verify w d) \<and> (endsWith d ''.co.uk'' \<or> endsWith d ''.com'')) batch"

definition processedBatches :: "world \<Rightarrow> string list list \<Rightarrow> string list list" where
  \<comment> \<open>the batches that are checked: those before the first strong hit, and the batch of
      that hit; all of them when there is no strong hit\<close>
  "processedBatches w bs =
     (let calm = takeWhile (\<lambda>b. \<not> hasStrongHit w b) bs
      in calm @ take 1 (drop (length calm) bs))"

definition specSelect :: "world \<Rightarrow> string list \<Rightarrow> selection" where
  \<comment> \<open>the selection as the specification words it, on the sorted candidates\<close>
  "specSelect w cands =
     (let capped = take 40 cands;
          checked = map (verify w) (concat (processedBatches w (batches5 capped)))
      in \<lparr>candidates = checked, pick = bestAlive checked\<rparr>)"

fun splitWhere :: "(char \<Rightarrow> bool) \<Rightarrow> string \<Rightarrow> string list" where
  \<comment> \<open>a string cut at every character of a class\<close>
  "splitWhere P [] = [[]]"
| "splitWhere P (x # xs) =
     (if P x then [] # splitWhere P xs
      else (let r = splitWhere P xs in (x # hd r) # tl r))"

definition isNameSeparator :: "char \<Rightarrow> bool" where
  \<comment> \<open>white space, and the punctuation that \<^verbatim>\<open>cleanName\<close> replaces by a space\<close>
  "isNameSeparator c = (isSpace c \<or> c \<in> set cleanName_strip)"

definition nameWords :: "string \<Rightarrow> string list" where
  \<comment> \<open>the words of a name: its maximal runs of characters that are no separators\<close>
  "nameWords s = filter (\<lambda>t. t \<noteq> []) (splitWhere isNameSeparator s)"




definition acmeRecord :: airtableRecord where
  \<comment> \<open>the record of the end-to-end scenario, under the field names of \<^const>\<open>defaultEnv\<close>\<close>
  "acmeRecord =
     [''Company'' \<mapsto> Str ''Acme Widgets Ltd'', ''Domain'' \<mapsto> Str [], ''Email'' \<mapsto> Str [],
      ''Phone'' \<mapsto> Str [], ''Industry'' \<mapsto> Str [], ''SIC'' \<mapsto> Str ''25110'']"

definition emptyPage :: page where
  "emptyPage = \<lparr>mailtoHrefs = [], telHrefs = [], cfemails = [], dataEmails = [],
                textEmails = [], textPhones = [], hrefs = []\<rparr>"

definition deadWorld :: world where
  \<comment> \<open>no network: every lookup and request fails, every page fetch is empty\<close>
  "deadWorld =
     \<lparr>resolve4 = (\<lambda>d. None), resolve6 = (\<lambda>d. None), resolveMx = (\<lambda>d. None),
      httpHead = (\<lambda>u. None), httpGet = (\<lambda>u. None), getHtml = (\<lambda>u. []),
      load = (\<lambda>h. emptyPage), makeAbs = (\<lambda>b h. b @ h)\<rparr>"

definition hexDigit :: "bool \<Rightarrow> nat \<Rightarrow> char" where
  \<comment> \<open>a hexadecimal digit, written in upper case when \<open>u\<close> holds\<close>
  "hexDigit u n = (if u then ''0123456789ABCDEF'' else ''0123456789abcdef'') ! n"

definition hex2 :: "bool \<Rightarrow> nat \<Rightarrow> string" where
  \<comment> \<open>the two hexadecimal digits of a byte\<close>
  "hex2 u b = [hexDigit u (b div 16), hexDigit u (b mod 16)]"

definition cfEncode :: "bool \<Rightarrow> nat \<Rightarrow> nat list \<Rightarrow> string" where
  \<comment> \<open>Cloudflare's obfuscation: the key byte, then every byte XOR the key, in hexadecimal\<close>
  "cfEncode u k bs = hex2 u k @ concat (map (\<lambda>b. hex2 u (b XOR k)) bs)"


definition dnsWorld :: world where
  \<comment> \<open>a world where two of the candidates for Acme Widgets have an A record\<close>
  "dnsWorld =
     deadWorld\<lparr>resolve4 :=
       (\<lambda>d. if d = ''cmwdgts.com'' \<or> d = ''awidgets.com'' then Some 1 else None)\<rparr>"

definition acmeHome :: string where
  \<comment> \<open>a home page with a \<^verbatim>\<open>mailto:\<close> link that holds no address, and a telephone link\<close>
  "acmeHome = ''<a href=mailto:sales>Acme sales</a> <a href=tel:+442079460958>Call us</a>''"

definition contactPage :: page where
  \<comment> \<open>what the selectors find in \<^const>\<open>acmeHome\<close>; its text holds no address and no number\<close>
  "contactPage =
     emptyPage\<lparr>mailtoHrefs := [''mailto:sales''], telHrefs := [''tel:+442079460958''],
               hrefs := [''mailto:sales'', ''tel:+442079460958'']\<rparr>"

definition liveWorld :: world where
  \<comment> \<open>a world where \<^verbatim>\<open>https://acme.com/\<close> serves that page and nothing else answers; a
      \<^verbatim>\<open>mailto:\<close> or \<^verbatim>\<open>tel:\<close> reference is absolute, a path is resolved against the base\<close>
  "liveWorld =
     deadWorld\<lparr>getHtml := (\<lambda>u. if u = ''https://acme.com/'' then acmeHome else []),
               load := (\<lambda>h. if h = acmeHome then contactPage else emptyPage),
               makeAbs := (\<lambda>b h. if startsWith h ''mailto:'' \<or> startsWith h ''tel:''
                                   then h else b @ h)\<rparr>"

definition acmeSiteRecord :: airtableRecord where
  \<comment> \<open>a record that holds the company and its domain, and no contact\<close>
  "acmeSiteRecord = [''Company'' \<mapsto> Str ''Acme'', ''Domain'' \<mapsto> Str ''acme.com'']"

definition zenithRecord :: airtableRecord where
  \<comment> \<open>a record of another company that holds the same domain: the page does not name it\<close>
  "zenithRecord = [''Company'' \<mapsto> Str ''Zenith'', ''Domain'' \<mapsto> Str ''acme.com'']"

declare bestDomainLoop.simps [simp del]

declare batches5.simps [simp del]

section \<open>Phone normalization and selection\<close>

lemma startsWith_Nil: "startsWith s [] = True"
  by (simp add: startsWith_def)

lemma startsWith_Cons:
  "startsWith s (c # p) = (case s of [] \<Rightarrow> False | x # xs \<Rightarrow> x = c \<and> startsWith xs p)"
  by (cases s) (auto simp: startsWith_def)

lemma normalizePhone_chars:
  "c \<in> set (normalizePhone p) \<Longrightarrow> c = CHR ''+'' \<or> isDigit c"
  by (auto simp: normalizePhone_def Let_def startsWith_def split: if_splits dest: in_set_dropD)

lemma normalizePhone_filter:
  "filter (\<lambda>c. c = CHR ''+'' \<or> isDigit c) (normalizePhone p) = normalizePhone p"
  by (rule filter_True) (auto dest: normalizePhone_chars)

lemma normalizePhone_not_0044: "\<not> startsWith (normalizePhone p) ''0044''"
  by (auto simp: normalizePhone_def Let_def startsWith_Cons startsWith_Nil split: list.splits)

lemma normalizePhone_not_44: "\<not> startsWith (normalizePhone p) ''44''"
  by (auto simp: normalizePhone_def Let_def startsWith_Cons startsWith_Nil split: list.splits)

text \<open>
  C10. Phone normalization is idempotent: normalizing a normalized phone number gives it
  back, for every input string.
\<close>

theorem normalizePhone_idempotent: "normalizePhone (normalizePhone p) = normalizePhone p"
proof (cases "normalizePhone p = []")
  case True
  then show ?thesis by (simp add: normalizePhone_def)
next
  case False
  have "normalizePhone (normalizePhone p) =
     (let s = normalizePhone p;
          s = (if startsWith s ''0044'' then CHR ''+'' # drop 2 s else s);
          s = (if startsWith s ''44'' \<and> \<not> startsWith s ''+'' then CHR ''+'' # s else s)
      in s)"
    using False by (subst normalizePhone_def) (simp add: normalizePhone_filter)
  then show ?thesis
    by (simp add: normalizePhone_not_0044 normalizePhone_not_44)
qed

lemma isLikelyPhone_digitCount:
  "isLikelyPhone n \<Longrightarrow> 10 \<le> digitCount n \<and> digitCount n \<le> 15"
  by (cases n)
     (auto simp: isLikelyPhone_def digitCount_def Let_def list_all_iff isDigit_def
           split: if_splits)

lemma startsWithD:
  assumes "startsWith s p" shows "s = p @ drop (length p) s"
proof -
  from assms have t: "take (length p) s = p" unfolding startsWith_def .
  have "take (length p) s @ drop (length p) s = s" by simp
  then show ?thesis unfolding t by (rule sym)
qed

lemma uk_rules:
  "(let s = (if startsWith s ''0044'' then CHR ''+'' # drop 2 s else s);
        s = (if startsWith s ''44'' \<and> \<not> startsWith s ''+'' then CHR ''+'' # s else s)
    in s)
   = (if startsWith s ''0044'' then ''+44'' @ drop 4 s
      else if startsWith s ''44'' then CHR ''+'' # s
      else s)"
proof (cases "startsWith s ''0044''")
  case True
  from startsWithD [OF True] obtain r where r: "s = ''0044'' @ r" by simp
  show ?thesis unfolding r by (simp add: startsWith_def)
next
  case False
  then show ?thesis
    by (auto simp: startsWith_Cons startsWith_Nil split: list.splits)
qed

lemma normalizePhone_cases:
  "normalizePhone p =
     (let s = filter (\<lambda>c. c = CHR ''+'' \<or> isDigit c) p
      in if startsWith s ''0044'' then ''+44'' @ drop 4 s
         else if startsWith s ''44'' then CHR ''+'' # s
         else s)"
proof (cases "p = []")
  case True
  then show ?thesis by (simp add: normalizePhone_def startsWith_def)
next
  case False
  have "normalizePhone p =
     (let s = filter (\<lambda>c. c = CHR ''+'' \<or> isDigit c) p
      in (let s = (if startsWith s ''0044'' then CHR ''+'' # drop 2 s else s);
              s = (if startsWith s ''44'' \<and> \<not> startsWith s ''+'' then CHR ''+'' # s else s)
          in s))"
    using False by (simp add: normalizePhone_def Let_def)
  then show ?thesis by (simp only: uk_rules)
qed

text \<open>
  C7. A leading 0044 becomes a leading +44: whenever the input, once everything but
  digits and plus signs is taken out, starts with \<^verbatim>\<open>0044\<close>, its normal form is \<^verbatim>\<open>+44\<close>
  followed by what comes after that prefix; so \<^verbatim>\<open>normalizePhone("00441234567890")\<close> is
  \<^verbatim>\<open>"+441234567890"\<close>. Phone selection rejects implausible inputs: when every entry of
  the candidate list normalizes to fewer than 10 or more than 15 digits, as the single
  entry \<^verbatim>\<open>"12345"\<close> does, \<^verbatim>\<open>pickBestPhone\<close> returns the empty string.
\<close>

theorem phone_normalized_and_filtered:
  "normalizePhone ''00441234567890'' = ''+441234567890''
   \<and> (startsWith (filter (\<lambda>c. c = CHR ''+'' \<or> isDigit c) p) ''0044''
        \<longrightarrow> normalizePhone p = ''+44'' @ drop 4 (filter (\<lambda>c. c = CHR ''+'' \<or> isDigit c) p))
   \<and> normalizePhone (''0044'' @ r) = ''+44'' @ filter (\<lambda>c. c = CHR ''+'' \<or> isDigit c) r
   \<and> pickBestPhone [''12345''] = []
   \<and> ((\<forall>p \<in> set ps. digitCount (normalizePhone p) < 10 \<or> 15 < digitCount (normalizePhone p))
        \<longrightarrow> pickBestPhone ps = [])"
proof -
  have 1: "normalizePhone ''00441234567890'' = ''+441234567890''"
    by (simp add: normalizePhone_def startsWith_def isDigit_def)
  have 2: "pickBestPhone [''12345''] = []"
    by (simp add: pickBestPhone_def normalizePhone_def startsWith_def isDigit_def
                  isLikelyPhone_def)
  have 3: "pickBestPhone ps = []"
    if "\<forall>p \<in> set ps. digitCount (normalizePhone p) < 10 \<or> 15 < digitCount (normalizePhone p)"
  proof -
    have "filter isLikelyPhone (map normalizePhone ps) = []"
      using that by (auto simp: filter_empty_conv dest!: isLikelyPhone_digitCount)
    then show ?thesis by (simp add: pickBestPhone_def)
  qed
  have 4: "normalizePhone p = ''+44'' @ drop 4 (filter (\<lambda>c. c = CHR ''+'' \<or> isDigit c) p)"
    if "startsWith (filter (\<lambda>c. c = CHR ''+'' \<or> isDigit c) p) ''0044''"
    using that by (simp add: normalizePhone_cases)
  have 5: "normalizePhone (''0044'' @ r) = ''+44'' @ filter (\<lambda>c. c = CHR ''+'' \<or> isDigit c) r"
    by (simp add: normalizePhone_cases startsWith_def isDigit_def)
  from 1 2 3 4 5 show ?thesis by blast
qed

theorem phone_normalized_and_filtered_witness:
  "startsWith (filter (\<lambda>c. c = CHR ''+'' \<or> isDigit c) ''(0044) 1234-567890'') ''0044''
   \<and> normalizePhone ''(0044) 1234-567890'' = ''+441234567890''
   \<and> digitCount (normalizePhone ''12345'') < 10
   \<and> digitCount (normalizePhone ''+44 20 7946 0958 0000 0000'') = 20
   \<and> pickBestPhone [''12345'', ''+44 20 7946 0958 0000 0000''] = []"
proof -
  have a: "digitCount (normalizePhone ''12345'') = 5"
    by (simp add: digitCount_def normalizePhone_def startsWith_def isDigit_def)
  have b: "digitCount (normalizePhone ''+44 20 7946 0958 0000 0000'') = 20"
    by (simp add: digitCount_def normalizePhone_def startsWith_def isDigit_def)
  have c: "filter (\<lambda>c. c = CHR ''+'' \<or> isDigit c) ''(0044) 1234-567890'' = ''00441234567890''"
    by (simp add: isDigit_def)
  have d: "startsWith ''00441234567890'' ''0044''" by (simp add: startsWith_def)
  have "\<forall>p \<in> set [''12345'', ''+44 20 7946 0958 0000 0000''].
          digitCount (normalizePhone p) < 10 \<or> 15 < digitCount (normalizePhone p)"
    using a b by simp
  with phone_normalized_and_filtered
         [of "''(0044) 1234-567890''" _ "[''12345'', ''+44 20 7946 0958 0000 0000'']"]
  have "normalizePhone ''(0044) 1234-567890'' = ''+44'' @ drop 4 ''00441234567890''"
    and "pickBestPhone [''12345'', ''+44 20 7946 0958 0000 0000''] = []"
    using d unfolding c by blast+
  then show ?thesis using a b d unfolding c by simp
qed

section \<open>The industry lookup\<close>






















theorem sic_lookup_counterexample:
  "lookupIndustryFromSICCode ''6a123'' = ''B '' @ emDash @ '' Mining & Quarrying''
   \<and> \<not> isDigit CHR ''a''
   \<and> parseInt ''6a'' 10 = Some 6
   \<and> lookupIndustryFromSICCode ''1x'' = ''A '' @ emDash @ '' Agriculture, Forestry & Fishing''"
  by code_simp


section \<open>The Cloudflare decoding\<close>

lemma lt16_cases:
  "(d::nat) < 16 \<Longrightarrow> d \<in> set [0, 1, 2, 3, 4, 5, 6, 7, 8, 9, 10, 11, 12, 13, 14, 15]"
  by (simp only: list.set insert_iff empty_iff) arith

lemma hexDigit_table:
  "list_all (\<lambda>d. \<forall>u. digitOf (hexDigit u d) = Some d \<and> \<not> isSpace (hexDigit u d)
                 \<and> hexDigit u d \<noteq> CHR ''+'' \<and> hexDigit u d \<noteq> CHR ''-''
                 \<and> hexDigit u d \<noteq> CHR ''x'' \<and> hexDigit u d \<noteq> CHR ''X'')
     [0, 1, 2, 3, 4, 5, 6, 7, 8, 9, 10, 11, 12, 13, 14, 15]"
  by code_simp

lemma hexDigit_props:
  assumes "d < 16"
  shows "digitOf (hexDigit u d) = Some d" "\<not> isSpace (hexDigit u d)"
    "hexDigit u d \<noteq> CHR ''+''" "hexDigit u d \<noteq> CHR ''-''"
    "hexDigit u d \<noteq> CHR ''x''" "hexDigit u d \<noteq> CHR ''X''"
  using lt16_cases [OF assms] hexDigit_table unfolding list_all_iff by blast+

lemma parseInt_hex2:
  assumes "v < 256"
  shows "parseInt (hex2 u v) 16 = Some (int v)"
proof -
  let ?a = "v div 16" and ?b = "v mod 16"
  have a: "?a < 16" and b: "?b < 16" using assms by auto
  have ra: "isRadixDigit 16 (hexDigit u ?a)" and rb: "isRadixDigit 16 (hexDigit u ?b)"
    using a b by (simp_all add: isRadixDigit_def hexDigit_props)
  have "int (?a * 16 + ?b) = int v" by simp
  then show ?thesis
    using hexDigit_props [OF a, of u] hexDigit_props [OF b, of u] ra rb
    by (simp add: parseInt_def hex2_def Let_def startsWith_def del: of_nat_add of_nat_mult)
qed

lemma chunks2_hex2:
  "chunks2 (concat (map (\<lambda>b. hex2 u (f b)) bs)) = map (\<lambda>b. hex2 u (f b)) bs"
  by (induction bs) (simp_all add: hex2_def)

lemma xor_lt_256:
  assumes "(a::nat) < 256" "(b::nat) < 256" shows "a XOR b < 256"
proof -
  have "int a XOR int b < 2 ^ 8"
    using assms by (intro XOR_upper) simp_all
  then have "int (a XOR b) < 256" by (simp add: of_nat_xor_eq)
  then show ?thesis by simp
qed

lemma xor_cancel_int: "((a::int) XOR b) XOR b = a"
  by (simp add: xor.assoc)

lemma take2_hex2: "take 2 (hex2 u k @ r) = hex2 u k" "drop 2 (hex2 u k @ r) = r"
  by (simp_all add: hex2_def)

lemma those_fromCharCode:
  "those (map fromCharCode (map int (map of_char s))) = Some s"
  by (induction s) (simp_all add: fromCharCode_def)

text \<open>
  C9. \<^verbatim>\<open>decodeCfEmail\<close> is a left inverse of Cloudflare's obfuscation: for every key byte
  \<open>k\<close> below 256 and every sequence of bytes, decoding the hexadecimal string made of the
  two digits of \<open>k\<close> and of the two digits of each byte XOR \<open>k\<close> gives the sequence back,
  as code units and as the string of those characters, whether the digits are written in
  lower or in upper case.
\<close>

theorem cf_roundtrip:
  assumes "k < 256"
  shows "((\<forall>b \<in> set bs. b < 256) \<longrightarrow> decodeCfEmailCodes (cfEncode u k bs) = map int bs)
         \<and> decodeCfEmail (cfEncode u k (map of_char s)) = Some s"
proof -
  have step: "(toInt32 (parseInt (hex2 u (b XOR k)) 16) XOR int k) mod 65536 = int b"
    if "b < 256" for b
  proof -
    from that have "b XOR k < 256" using assms by (rule xor_lt_256)
    then have "toInt32 (parseInt (hex2 u (b XOR k)) 16) = int b XOR int k"
      by (simp add: parseInt_hex2 toInt32_def of_nat_xor_eq)
    then show ?thesis using that by (simp add: xor_cancel_int)
  qed
  have key: "toInt32 (parseInt (hex2 u k) 16) = int k"
    using assms by (simp add: parseInt_hex2 toInt32_def)
  have codes: "decodeCfEmailCodes (cfEncode u k xs) = map int xs"
    if "\<forall>b \<in> set xs. b < 256" for xs
  proof -
    have "decodeCfEmailCodes (cfEncode u k xs) =
            map (\<lambda>h. (toInt32 (parseInt h 16) XOR int k) mod 65536)
              (map (\<lambda>b. hex2 u (b XOR k)) xs)"
      unfolding decodeCfEmailCodes_def cfEncode_def take2_hex2 chunks2_hex2 Let_def key ..
    also have "\<dots> = map int xs"
      using step that by (simp add: comp_def)
    finally show ?thesis .
  qed
  have "\<forall>b \<in> set (map of_char s :: nat list). b < 256"
    by simp
  then have "decodeCfEmailCodes (cfEncode u k (map of_char s)) = map int (map of_char s)"
    by (rule codes)
  then have "decodeCfEmail (cfEncode u k (map of_char s)) = Some s"
    unfolding decodeCfEmail_def by (simp only: those_fromCharCode)
  with codes show ?thesis by blast
qed

theorem cf_roundtrip_witness:
  "(66::nat) < 256 \<and> cfEncode False 66 [105, 110, 102, 111] = ''422b2c242d''
   \<and> decodeCfEmailCodes ''422b2c242d'' = [105, 110, 102, 111]
   \<and> decodeCfEmail ''422b2c242d'' = Some ''info''
   \<and> cfEncode True 66 [105, 110, 102, 111] = ''422B2C242D''
   \<and> decodeCfEmail ''422B2C242D'' = Some ''info''"
proof -
  have k: "(66::nat) < 256" by simp
  have e: "cfEncode False 66 [105, 110, 102, 111] = ''422b2c242d''" by code_simp
  have e': "cfEncode True 66 [105, 110, 102, 111] = ''422B2C242D''" by code_simp
  have s: "map of_char ''info'' = [105, 110, 102, 111 :: nat]" by simp
  from cf_roundtrip [OF k, of "[105, 110, 102, 111]" False "''info''"]
    cf_roundtrip [OF k, of "[105, 110, 102, 111]" True "''info''"]
  show ?thesis unfolding s e e' by simp
qed

section \<open>The ranking of the email candidates\<close>

lemma hd_sort_key_mem: "xs \<noteq> [] \<Longrightarrow> hd (sort_key f xs) \<in> set xs"
proof -
  assume "xs \<noteq> []"
  then have "sort_key f xs \<noteq> []" by (metis length_sort length_0_conv)
  then have "hd (sort_key f xs) \<in> set (sort_key f xs)" by (rule hd_in_set)
  then show ?thesis by simp
qed

lemma hd_sort_key_least:
  assumes "x \<in> set xs"
  shows "f (hd (sort_key f xs)) \<le> f x"
proof -
  from assms have "x \<in> set (sort_key f xs)" by simp
  moreover have "sorted (map f (sort_key f xs))" by (rule sorted_sort_key)
  ultimately show ?thesis
    by (cases "sort_key f xs") auto
qed

lemma hd_insort_key:
  "hd (insort_key f x ys) = (if ys = [] \<or> f x \<le> f (hd ys) then x else hd ys)"
  by (cases ys) auto

lemma find_first_least:
  fixes f :: "'a \<Rightarrow> 'b::linorder"
  shows "xs \<noteq> [] \<Longrightarrow> find (\<lambda>x. \<forall>y \<in> set xs. f x \<le> f y) xs = Some (hd (sort_key f xs))"
proof (induction xs)
  case Nil
  then show ?case by simp
next
  case (Cons x xs)
  show ?case
  proof (cases "xs = []")
    case True
    then show ?thesis by simp
  next
    case False
    let ?h = "hd (sort_key f xs)"
    have ne: "sort_key f xs \<noteq> []" using False by (metis length_sort length_0_conv)
    have IH: "find (\<lambda>z. \<forall>y \<in> set xs. f z \<le> f y) xs = Some ?h"
      using Cons.IH False by simp
    have hmem: "?h \<in> set xs" using False by (rule hd_sort_key_mem)
    have hleast: "f ?h \<le> f y" if "y \<in> set xs" for y using that by (rule hd_sort_key_least)
    show ?thesis
    proof (cases "f x \<le> f ?h")
      case True
      then have "\<forall>y \<in> set (x # xs). f x \<le> f y" using hleast by force
      moreover have "hd (sort_key f (x # xs)) = x"
        using True ne by (simp add: hd_insort_key)
      ultimately show ?thesis by simp
    next
      case lt: False
      then have notx: "\<not> (\<forall>y \<in> set (x # xs). f x \<le> f y)" using hmem by auto
      have "find (\<lambda>z. \<forall>y \<in> set (x # xs). f z \<le> f y) xs
              = find (\<lambda>z. \<forall>y \<in> set xs. f z \<le> f y) xs"
      proof (rule find_cong [OF refl])
        fix z assume "z \<in> set xs"
        show "(\<forall>y \<in> set (x # xs). f z \<le> f y) = (\<forall>y \<in> set xs. f z \<le> f y)"
        proof
          assume "\<forall>y \<in> set xs. f z \<le> f y"
          then have "f z \<le> f ?h" using hmem by blast
          with lt have "f z \<le> f x" by simp
          with \<open>\<forall>y \<in> set xs. f z \<le> f y\<close> show "\<forall>y \<in> set (x # xs). f z \<le> f y" by simp
        qed simp
      qed
      moreover have "hd (sort_key f (x # xs)) = ?h"
        using lt ne by (simp add: hd_insort_key)
      moreover have "find (\<lambda>z. \<forall>y \<in> set (x # xs). f z \<le> f y) (x # xs)
              = find (\<lambda>z. \<forall>y \<in> set (x # xs). f z \<le> f y) xs"
        using notx by (simp only: find.simps if_False)
      ultimately show ?thesis using IH by (simp only:)
    qed
  qed
qed

text \<open>
  C4. \<^verbatim>\<open>pickBestEmail\<close> does not split the candidates into the addresses on the preferred
  domain and the others. Its test compares the domain of the address and the preferred
  domain by suffix, in either direction and with no boundary at a dot, and it puts the
  address in lower case but not the preferred domain. So for \<^verbatim>\<open>acme.com\<close> the addresses
  \<^verbatim>\<open>info@me.com\<close> and \<^verbatim>\<open>info@m\<close> count as on the domain, and each wins over
  \<^verbatim>\<open>sales@acme.com\<close>; for \<^verbatim>\<open>Acme.com\<close> no address counts as on the domain, and
  \<^verbatim>\<open>info@gmail.com\<close> wins over \<^verbatim>\<open>sales@acme.com\<close>. The example of the specification
  holds: with \<^verbatim>\<open>["sales+promo@acme.com", "info@acme.com", "random@gmail.com"]\<close> and
  \<^verbatim>\<open>acme.com\<close> the winner is \<^verbatim>\<open>info@acme.com\<close>.
\<close>

theorem pickBestEmail_off_domain:
  "pickBestEmail [''info@me.com'', ''sales@acme.com''] ''acme.com'' = ''info@me.com''
   \<and> emailDomainPart ''info@me.com'' = ''me.com''
   \<and> pickBestEmail [''info@m'', ''sales@acme.com''] ''acme.com'' = ''info@m''
   \<and> pickBestEmail [''info@gmail.com'', ''sales@acme.com''] ''Acme.com'' = ''info@gmail.com''
   \<and> pickBestEmail [''sales+promo@acme.com'', ''info@acme.com'', ''random@gmail.com'']
         ''acme.com'' = ''info@acme.com''"
  by code_simp

section \<open>Domain selection\<close>

lemma headOpt_sort_key:
  "(case sort_key (\<lambda>r. - score (domain r)) ys of [] \<Rightarrow> None | v # _ \<Rightarrow> Some v) = bestOf ys"
proof (induction ys)
  case Nil
  then show ?case by simp
next
  case (Cons y ys)
  show ?case
  proof (cases "sort_key (\<lambda>r. - score (domain r)) ys")
    case Nil
    with Cons show ?thesis by simp
  next
    case (Cons z zs)
    with Cons.IH have "bestOf ys = Some z" by simp
    with Cons show ?thesis by (simp add: not_less)
  qed
qed

lemma verifiedOf_best:
  "(case verifiedOf xs of [] \<Rightarrow> None | v # _ \<Rightarrow> Some v) = bestAlive xs"
  unfolding verifiedOf_def bestAlive_def by (rule headOpt_sort_key)

lemma bestOf_None: "bestOf ys = None \<longleftrightarrow> ys = []"
  by (cases ys) (auto split: option.splits)

lemma find_isStrong:
  "(find isStrong (map (verify w) batch) = None) = (\<not> hasStrongHit w batch)"
  by (induction batch) (auto simp: hasStrongHit_def isStrong_def verify_def Let_def)

lemma pick_strong:
  assumes "find isStrong res = Some strong" "set res \<subseteq> set ch"
  shows "(case verifiedOf ch of [] \<Rightarrow> Some strong | v # _ \<Rightarrow> Some v) = bestAlive ch"
proof -
  from assms(1) have "strong \<in> set res" "ok strong"
    by (auto simp: find_Some_iff isStrong_def)
  with assms(2) have "filter ok ch \<noteq> []" by (auto simp: filter_empty_conv)
  moreover have "length (verifiedOf ch) = length (filter ok ch)"
    by (simp add: verifiedOf_def)
  ultimately have "verifiedOf ch \<noteq> []" by auto
  with verifiedOf_best [of ch] show ?thesis by (cases "verifiedOf ch") auto
qed

lemma processedBatches_Nil: "processedBatches w [] = []"
  by (simp add: processedBatches_def)

lemma processedBatches_Cons:
  "processedBatches w (b # bs) = (if hasStrongHit w b then [b] else b # processedBatches w bs)"
  by (simp add: processedBatches_def Let_def)

lemma batch_slice:
  assumes "5 dvd i" "i < min 40 (length cands)"
  shows "take 5 (drop i (take 40 cands)) = take 5 (drop i cands)"
proof -
  from assms have "i + 5 \<le> 40" by (auto elim!: dvdE)
  then show ?thesis by (simp add: drop_take min_def)
qed

lemma bestDomainLoop_spec:
  assumes "5 dvd i" "topN = min 40 (length cands)"
  shows "bestDomainLoop w cands topN i checked =
     (let ch = checked @ map (verify w)
                  (concat (processedBatches w (batches5 (drop i (take 40 cands)))))
      in \<lparr>candidates = ch, pick = bestAlive ch\<rparr>)"
  using assms
proof (induction w cands topN i checked rule: bestDomainLoop.induct)
  case (1 w cands topN i checked)
  let ?capped = "take 40 cands"
  show ?case
  proof (cases "i < topN")
    case False
    with "1.prems" have "length ?capped \<le> i" by (auto simp: min_def)
    then have "drop i ?capped = []" by simp
    then have "batches5 (drop i ?capped) = []" by (simp add: batches5.simps)
    with False show ?thesis
      by (subst bestDomainLoop.simps)
         (simp add: processedBatches_Nil Let_def verifiedOf_best)
  next
    case True
    let ?batch = "take 5 (drop i cands)"
    let ?res = "map (verify w) ?batch"
    let ?ch = "checked @ ?res"
    from True "1.prems" have "i < length ?capped" by (auto simp: min_def)
    then have ne: "drop i ?capped \<noteq> []" by (simp only: drop_eq_Nil not_le)
    have slice: "take 5 (drop i ?capped) = ?batch"
      using "1.prems" True by (simp add: batch_slice)
    have unfold: "batches5 (drop i ?capped) = ?batch # batches5 (drop (i + 5) ?capped)"
      using ne slice by (subst batches5.simps) (simp add: add.commute)
    show ?thesis
    proof (cases "find isStrong ?res")
      case (Some strong)
      then have hit: "hasStrongHit w ?batch"
        using find_isStrong [of w ?batch] by simp
      have "bestDomainLoop w cands topN i checked =
              \<lparr>candidates = ?ch,
               pick = (case verifiedOf ?ch of [] \<Rightarrow> Some strong | v # _ \<Rightarrow> Some v)\<rparr>"
        using True Some by (subst bestDomainLoop.simps) (simp add: Let_def)
      also have "(case verifiedOf ?ch of [] \<Rightarrow> Some strong | v # _ \<Rightarrow> Some v) = bestAlive ?ch"
        using Some by (rule pick_strong) simp
      finally show ?thesis
        using hit by (simp add: unfold processedBatches_Cons Let_def)
    next
      case None
      then have calm: "\<not> hasStrongHit w ?batch"
        using find_isStrong [of w ?batch] by simp
      have dvd: "5 dvd i + 5" using "1.prems"(1) by simp
      have "bestDomainLoop w cands topN i checked = bestDomainLoop w cands topN (i + 5) ?ch"
        using True None by (subst bestDomainLoop.simps) (simp add: Let_def)
      also have "\<dots> =
        (let ch = ?ch @ map (verify w)
                   (concat (processedBatches w (batches5 (drop (i + 5) ?capped))))
         in \<lparr>candidates = ch, pick = bestAlive ch\<rparr>)"
        using True None dvd "1.prems"(2) by (intro "1.IH") simp_all
      finally show ?thesis
        using calm by (simp add: unfold processedBatches_Cons Let_def)
    qed
  qed
qed

lemma bestDomainFor_specSelect:
  "bestDomainFor w name country =
     (if cleanName name = [] then \<lparr>candidates = [], pick = None\<rparr>
      else specSelect w (candidates_for (cleanName name) country))"
  using bestDomainLoop_spec [of 0 _ "candidates_for (cleanName name) country" w "[]"]
  by (simp add: bestDomainFor_def specSelect_def Let_def)

lemma bestOf_mem: "bestOf ys = Some v \<Longrightarrow> v \<in> set ys"
  by (induction ys arbitrary: v) (auto split: option.splits if_splits)

lemma bestOf_max: "bestOf ys = Some v \<Longrightarrow> u \<in> set ys \<Longrightarrow> score (domain u) \<le> score (domain v)"
  by (induction ys arbitrary: v) (fastforce split: option.splits if_splits simp: bestOf_None)+

lemma pick_bestAlive:
  "pick (bestDomainFor w name country) = bestAlive (candidates (bestDomainFor w name country))"
  by (simp add: bestDomainFor_specSelect specSelect_def Let_def bestAlive_def)

text \<open>
  C2. For every company name, country hint and world, \<^verbatim>\<open>bestDomainFor\<close> takes the
  candidates sorted by falling score, caps them to the first 40 and checks them in
  batches of 5. It stops after the first batch that holds a candidate verified alive and
  ending in \<^verbatim>\<open>.co.uk\<close> or \<^verbatim>\<open>.com\<close>, and at the end of the capped list otherwise; its pick is
  the best-scored alive candidate among all it has checked by then, and nothing when none
  of them is alive. A name that cleans to the empty string gives no candidates and no
  pick.
\<close>

theorem bestDomainFor_selection:
  "bestDomainFor w name country =
     (if cleanName name = [] then \<lparr>candidates = [], pick = None\<rparr>
      else specSelect w (candidates_for (cleanName name) country))
   \<and> sorted (map (\<lambda>d. - score d) (candidates_for (cleanName name) country))
   \<and> (pick (bestDomainFor w name country) = None
        \<longleftrightarrow> (\<forall>u \<in> set (candidates (bestDomainFor w name country)). \<not> ok u))
   \<and> (\<forall>v. pick (bestDomainFor w name country) = Some v
          \<longrightarrow> v \<in> set (candidates (bestDomainFor w name country)) \<and> ok v
              \<and> (\<forall>u \<in> set (candidates (bestDomainFor w name country)).
                     ok u \<longrightarrow> score (domain u) \<le> score (domain v)))"
proof -
  let ?sel = "bestDomainFor w name country"
  have "sorted (map (\<lambda>d. - score d) (candidates_for (cleanName name) country))"
    unfolding candidates_for_def by (rule sorted_sort_key)
  moreover have "pick ?sel = None \<longleftrightarrow> (\<forall>u \<in> set (candidates ?sel). \<not> ok u)"
    by (simp add: pick_bestAlive bestAlive_def bestOf_None filter_empty_conv)
  moreover have "v \<in> set (candidates ?sel) \<and> ok v
              \<and> (\<forall>u \<in> set (candidates ?sel). ok u \<longrightarrow> score (domain u) \<le> score (domain v))"
    if "pick ?sel = Some v" for v
  proof -
    from that have b: "bestOf (filter ok (candidates ?sel)) = Some v"
      by (simp add: pick_bestAlive bestAlive_def)
    from bestOf_mem [OF b] bestOf_max [OF b] show ?thesis by auto
  qed
  ultimately show ?thesis using bestDomainFor_specSelect [of w name country] by blast
qed

theorem bestDomainFor_selection_witness:
  "pick (bestDomainFor dnsWorld ''Acme Widgets Ltd'' [])
     = Some \<lparr>domain = ''cmwdgts.com'', dnsOk = True, httpOk = False, ok = True\<rparr>
   \<and> map domain (candidates (bestDomainFor dnsWorld ''Acme Widgets Ltd'' []))
     = [''acme widgets.co.uk'', ''acmewidgets.co.uk'', ''cmwdgts.com'', ''cmwdgts.co.uk'',
        ''awidgets.com'']
   \<and> map ok (candidates (bestDomainFor dnsWorld ''Acme Widgets Ltd'' []))
     = [False, False, True, False, True]"
proof -
  have c: "cleanName ''Acme Widgets Ltd'' = ''acme widgets''" by code_simp
  have s: "specSelect dnsWorld (candidates_for ''acme widgets'' []) =
     \<lparr>candidates =
        [\<lparr>domain = ''acme widgets.co.uk'', dnsOk = False, httpOk = False, ok = False\<rparr>,
         \<lparr>domain = ''acmewidgets.co.uk'', dnsOk = False, httpOk = False, ok = False\<rparr>,
         \<lparr>domain = ''cmwdgts.com'', dnsOk = True, httpOk = False, ok = True\<rparr>,
         \<lparr>domain = ''cmwdgts.co.uk'', dnsOk = False, httpOk = False, ok = False\<rparr>,
         \<lparr>domain = ''awidgets.com'', dnsOk = True, httpOk = False, ok = True\<rparr>],
      pick = Some \<lparr>domain = ''cmwdgts.com'', dnsOk = True, httpOk = False, ok = True\<rparr>\<rparr>"
    by code_simp
  from bestDomainFor_selection [of dnsWorld "''Acme Widgets Ltd''" "[]"]
  have "bestDomainFor dnsWorld ''Acme Widgets Ltd'' [] =
          specSelect dnsWorld (candidates_for ''acme widgets'' [])"
    unfolding c by simp
  then show ?thesis unfolding s by simp
qed


section \<open>The end-to-end scenario without a network\<close>

lemma pick_None_offline:
  assumes "\<forall>d. \<not> dnsAlive w d" "\<forall>d. \<not> httpAlive w d"
  shows "pick (bestDomainFor w name country) = None"
proof -
  have "\<not> ok (verify w d)" for d
    using assms by (simp add: verify_def)
  then have "filter ok (map (verify w) ds) = []" for ds
    by (simp add: filter_empty_conv)
  then show ?thesis
    by (simp add: bestDomainFor_specSelect specSelect_def Let_def bestAlive_def)
qed

text \<open>
  C3, as amended. With every DNS and HTTP check negative, processing the record of Acme
  Widgets Ltd (blank domain, email, phone and industry, SIC code 25110) gives the status
  \<^verbatim>\<open>No domain or contacts found\<close>, and a patch of three entries: the industry derived from
  the SIC code (section C, Manufacturing), the status and the time stamp. The industry
  needs no network, so the patch does not hold the status and the time stamp only.
\<close>

theorem acme_offline_patch:
  assumes "\<forall>d. \<not> dnsAlive w d" "\<forall>d. \<not> httpAlive w d"
  shows "processRecord defaultEnv w now acmeRecord =
           Some [(''Industry'', ''C '' @ emDash @ '' Manufacturing''),
                 (''Enrichment Status'', ''No domain or contacts found''),
                 (''Last Enriched At'', now)]"
proof -
  have ind: "deriveIndustryFromSICField (Some (Str ''25110'')) = ''C '' @ emDash @ '' Manufacturing''"
    by code_simp
  have ne: "''C '' @ emDash @ '' Manufacturing'' \<noteq> []" by simp
  have e: "enrich defaultEnv w acmeRecord =
     Some \<lparr>res_domain = [], res_email = [], res_phone = [],
           res_industry = ''C '' @ emDash @ '' Manufacturing'', res_brandOk = None,
           res_status = ''No domain or contacts found''\<rparr>"
    using ne
    by (simp add: enrich_def defaultEnv_def acmeRecord_def getField_def
          pick_None_offline [OF assms] truthy_def ind statusNote_def Let_def del: append.simps)
  show ?thesis
    unfolding processRecord_def e by (simp add: writeBack_def defaultEnv_def)
qed

theorem acme_offline_patch_witness:
  "(\<forall>d. \<not> dnsAlive deadWorld d) \<and> (\<forall>d. \<not> httpAlive deadWorld d)
   \<and> processRecord defaultEnv deadWorld ''2026-11-03T00:00:00.000Z'' acmeRecord =
           Some [(''Industry'', ''C '' @ emDash @ '' Manufacturing''),
                 (''Enrichment Status'', ''No domain or contacts found''),
                 (''Last Enriched At'', ''2026-11-03T00:00:00.000Z'')]"
proof -
  have a: "\<forall>d. \<not> dnsAlive deadWorld d" by (simp add: dnsAlive_def deadWorld_def)
  have b: "\<forall>d. \<not> httpAlive deadWorld d" by (simp add: httpAlive_def deadWorld_def)
  from acme_offline_patch [OF a b] a b show ?thesis by blast
qed

theorem acme_offline_patch_counterexample:
  "map_option (map fst)
     (processRecord defaultEnv deadWorld ''2026-11-03T00:00:00.000Z'' acmeRecord)
     = Some [''Industry'', ''Enrichment Status'', ''Last Enriched At'']
   \<and> map_option (\<lambda>patch. map_of patch ''Industry'')
       (processRecord defaultEnv deadWorld ''2026-11-03T00:00:00.000Z'' acmeRecord)
     = Some (Some (''C '' @ emDash @ '' Manufacturing''))"
  by code_simp

section \<open>The enrichment of a record\<close>

lemma enrich_shape:
  assumes "map_option
             (\<lambda>x. \<lparr>res_domain = D, res_email = r_email x, res_phone = r_phone x,
                    res_industry = I, res_brandOk = r_brandOk x,
                    res_status = statusNote D (r_email x) (r_phone x) (r_brandOk x)\<rparr>)
             (if D \<noteq> [] \<and> (E = [] \<or> P = [])
              then map_option (applyContacts C E P) (discoverContacts w D)
              else Some \<lparr>r_email = E, r_phone = P, r_brandOk = None\<rparr>) = Some r"
  shows "res_status r = statusNote (res_domain r) (res_email r) (res_phone r) (res_brandOk r)
         \<and> (if res_domain r \<noteq> [] \<and> (E = [] \<or> P = [])
            then (\<exists>c. discoverContacts w (res_domain r) = Some c
                      \<and> res_brandOk r = Some (2 / 5 \<le> brandMatchScore C (brandText c))
                      \<and> res_email r = (if E = [] then email c else E)
                      \<and> res_phone r = (if P = [] then phone c else P))
            else res_brandOk r = None \<and> res_email r = E \<and> res_phone r = P)"
proof (cases "D \<noteq> [] \<and> (E = [] \<or> P = [])")
  case True
  with assms obtain c where c: "discoverContacts w D = Some c"
    by (cases "discoverContacts w D") auto
  from assms True c show ?thesis
    by (auto simp: applyContacts_def Let_def)
next
  case False
  with assms show ?thesis by auto
qed

lemma enrich_cases:
  assumes "enrich env w rec = Some r"
  shows "res_status r = statusNote (res_domain r) (res_email r) (res_phone r) (res_brandOk r)
         \<and> (if res_domain r \<noteq> []
                \<and> (getField rec (AIRTABLE_EMAIL_FIELD env) = []
                     \<or> getField rec (AIRTABLE_PHONE_FIELD env) = [])
            then (\<exists>c. discoverContacts w (res_domain r) = Some c
                      \<and> res_brandOk r
                          = Some (2 / 5 \<le> brandMatchScore (getField rec (AIRTABLE_COMPANY_FIELD env))
                                            (brandText c))
                      \<and> res_email r = (if getField rec (AIRTABLE_EMAIL_FIELD env) = [] then email c
                                        else getField rec (AIRTABLE_EMAIL_FIELD env))
                      \<and> res_phone r = (if getField rec (AIRTABLE_PHONE_FIELD env) = [] then phone c
                                        else getField rec (AIRTABLE_PHONE_FIELD env)))
            else res_brandOk r = None
                 \<and> res_email r = getField rec (AIRTABLE_EMAIL_FIELD env)
                 \<and> res_phone r = getField rec (AIRTABLE_PHONE_FIELD env))"
  by (rule enrich_shape [OF assms [unfolded enrich_def Let_def]])

lemma discoverContacts_Some:
  assumes "discoverContacts w d = Some c"
  shows "\<exists>st. crawlSite w d = Some st \<and> email c = pickBestEmail (foundEmails st) d
              \<and> phone c = pickBestPhone (foundPhones st)
              \<and> brandText c = getHtml w (''https://'' @ d @ ''/'')"
  using assms by (auto simp: discoverContacts_def Let_def split: option.splits)

lemma those_Some: "None \<notin> set xs \<Longrightarrow> \<exists>ys. those xs = Some ys"
proof (induction xs)
  case Nil
  then show ?case by simp
next
  case (Cons a xs)
  then show ?case by (cases a) auto
qed

lemma extractContactsFromUrl_returns:
  assumes "\<forall>h. \<forall>x \<in> set (cfemails (load w h)). decodeCfEmail x \<noteq> None"
  shows "\<exists>c. extractContactsFromUrl w url = Some c"
proof (cases "getHtml w url = []")
  case True
  then show ?thesis by (simp add: extractContactsFromUrl_def)
next
  case False
  have "None \<notin> set (map decodeCfEmail (cfemails (load w (getHtml w url))))"
  proof
    assume "None \<in> set (map decodeCfEmail (cfemails (load w (getHtml w url))))"
    then obtain x where "x \<in> set (cfemails (load w (getHtml w url)))" "decodeCfEmail x = None"
      by force
    with assms show False by blast
  qed
  then obtain decs where "those (map decodeCfEmail (cfemails (load w (getHtml w url)))) = Some decs"
    using those_Some by blast
  with False show ?thesis by (simp add: extractContactsFromUrl_def Let_def)
qed

lemma visit_returns:
  assumes "\<forall>h. \<forall>x \<in> set (cfemails (load w h)). decodeCfEmail x \<noteq> None"
  shows "\<exists>st'. visit w st url = Some st'"
  using extractContactsFromUrl_returns [OF assms, of url] by (auto simp: visit_def)

lemma crawlSeeds_loop_returns:
  assumes "\<forall>h. \<forall>x \<in> set (cfemails (load w h)). decodeCfEmail x \<noteq> None"
  shows "\<exists>st'. foldl (\<lambda>acc url. case acc of
                         None \<Rightarrow> None
                       | Some st \<Rightarrow>
                           if url = [] \<or> url \<in> set (seen st) then Some st else visit w st url)
                 (Some st) seeds = Some st'"
proof (induction seeds arbitrary: st)
  case Nil
  then show ?case by simp
next
  case (Cons u us)
  show ?case
  proof (cases "u = [] \<or> u \<in> set (seen st)")
    case True
    with Cons [of st] show ?thesis by simp
  next
    case False
    from visit_returns [OF assms, of st u] obtain st' where "visit w st u = Some st'" by blast
    with False Cons [of st'] show ?thesis by simp
  qed
qed

lemma crawlInternal_loop_returns:
  assumes "\<forall>h. \<forall>x \<in> set (cfemails (load w h)). decodeCfEmail x \<noteq> None"
  shows "\<exists>r. foldl (\<lambda>acc u. case acc of
                          None \<Rightarrow> None
                        | Some (count, st) \<Rightarrow>
                            if 3 \<le> count then Some (count, st)
                            else if u \<in> set (seen st) then Some (count, st)
                            else map_option (\<lambda>st'. (count + 1, st')) (visit w st u))
                (Some (n :: nat, st)) internal = Some r"
proof (induction internal arbitrary: n st)
  case Nil
  then show ?case by simp
next
  case (Cons u us)
  show ?case
  proof (cases "3 \<le> n \<or> u \<in> set (seen st)")
    case True
    with Cons [of n st] show ?thesis by auto
  next
    case False
    from visit_returns [OF assms, of st u] obtain st' where "visit w st u = Some st'" by blast
    with False Cons [of "n + 1" st'] show ?thesis by simp
  qed
qed

lemma discoverContacts_returns:
  assumes "\<forall>h. \<forall>x \<in> set (cfemails (load w h)). decodeCfEmail x \<noteq> None"
  shows "\<exists>c. discoverContacts w d = Some c"
proof -
  obtain st where st: "crawlSeeds w (map (makeAbs w (''https://'' @ d @ ''/'')) seedPaths) = Some st"
    unfolding crawlSeeds_def using crawlSeeds_loop_returns [OF assms] by blast
  have "\<exists>st'. crawlInternal w st internal = Some st'" for internal
    unfolding crawlInternal_def using crawlInternal_loop_returns [OF assms, of 0 st internal]
    by auto
  with st have "\<exists>st'. crawlSite w d = Some st'"
    by (simp add: crawlSite_def Let_def)
  then show ?thesis by (auto simp: discoverContacts_def Let_def)
qed

lemma enrich_returns_shape:
  assumes "\<And>d. \<exists>c. discoverContacts w d = Some c"
  shows "\<exists>x. map_option F (if C then map_option G (discoverContacts w D) else Some Y) = Some x"
proof (cases C)
  case True
  from assms obtain c where "discoverContacts w D = Some c" by blast
  with True show ?thesis by simp
next
  case False
  then show ?thesis by simp
qed

lemma enrich_returns:
  assumes "\<forall>h. \<forall>x \<in> set (cfemails (load w h)). decodeCfEmail x \<noteq> None"
  shows "\<exists>r. enrich env w rec = Some r"
  unfolding enrich_def Let_def
  by (rule enrich_returns_shape) (rule discoverContacts_returns [OF assms])

lemma writeBack_map_of:
  assumes "distinct [AIRTABLE_DOMAIN_FIELD env, AIRTABLE_EMAIL_FIELD env, AIRTABLE_PHONE_FIELD env,
                     AIRTABLE_INDUSTRY_FIELD env, AIRTABLE_STATUS_FIELD env,
                     AIRTABLE_LAST_ENRICHED_AT_FIELD env]"
  shows "map_of (writeBack env now r) (AIRTABLE_STATUS_FIELD env) = Some (res_status r)"
    "map_of (writeBack env now r) (AIRTABLE_EMAIL_FIELD env)
       = (if res_email r = [] then None else Some (res_email r))"
    "map_of (writeBack env now r) (AIRTABLE_PHONE_FIELD env)
       = (if res_phone r = [] then None else Some (res_phone r))"
  using assms by (auto simp: writeBack_def Let_def update_conv')

section \<open>What is accepted as a contact\<close>

lemma pickBestPhone_likely:
  "pickBestPhone ps = [] \<or> (isLikelyPhone (pickBestPhone ps) \<and> pickBestPhone ps \<in> normalizePhone ` set ps)"
proof (cases "filter isLikelyPhone (map normalizePhone ps) = []")
  case True
  then show ?thesis by (simp add: pickBestPhone_def)
next
  case False
  let ?arr = "filter isLikelyPhone (map normalizePhone ps)"
  from False have "pickBestPhone ps = hd (sort_key (\<lambda>n. - phoneScore n) ?arr)"
    by (simp add: pickBestPhone_def)
  with hd_sort_key_mem [OF False, of "\<lambda>n. - phoneScore n"]
  have "pickBestPhone ps \<in> set ?arr" by simp
  then show ?thesis by auto
qed

lemma emailPool_subset: "set (emailPool arr pd) \<subseteq> set arr"
  by (auto simp: emailPool_def Let_def)

lemma emailPool_nonempty: "arr \<noteq> [] \<Longrightarrow> emailPool arr pd \<noteq> []"
  by (auto simp: emailPool_def Let_def filter_empty_conv)

lemma pickBestEmail_mem:
  "pickBestEmail es pd = [] \<or> pickBestEmail es pd \<in> trim ` set es"
proof (cases "filter (\<lambda>e. e \<noteq> []) (map trim es) = []")
  case True
  then show ?thesis by (simp add: pickBestEmail_def)
next
  case False
  let ?arr = "filter (\<lambda>e. e \<noteq> []) (map trim es)"
  from False have "pickBestEmail es pd = hd (sort_key (\<lambda>e. - emailScore e) (emailPool ?arr pd))"
    by (simp add: pickBestEmail_def)
  with hd_sort_key_mem [OF emailPool_nonempty [OF False], of "\<lambda>e. - emailScore e" pd]
  have "pickBestEmail es pd \<in> set (emailPool ?arr pd)" by simp
  with emailPool_subset have "pickBestEmail es pd \<in> set ?arr" by blast
  then show ?thesis by auto
qed

lemma pickBestEmail_first_best:
  assumes "\<exists>e \<in> set es. trim e \<noteq> []"
  shows "find (\<lambda>e. \<forall>e' \<in> set (emailPool (filter (\<lambda>e. e \<noteq> []) (map trim es)) pd).
                       emailScore e' \<le> emailScore e)
           (emailPool (filter (\<lambda>e. e \<noteq> []) (map trim es)) pd)
         = Some (pickBestEmail es pd)"
proof -
  let ?arr = "filter (\<lambda>e. e \<noteq> []) (map trim es)"
  from assms have arr: "?arr \<noteq> []" by (auto simp: filter_empty_conv)
  then have pool: "emailPool ?arr pd \<noteq> []" by (rule emailPool_nonempty)
  have "pickBestEmail es pd = hd (sort_key (\<lambda>e. - emailScore e) (emailPool ?arr pd))"
    using arr by (simp add: pickBestEmail_def)
  with find_first_least [OF pool, of "\<lambda>e. - emailScore e"] show ?thesis by simp
qed

lemma pickBestEmail_blank:
  "pickBestEmail es pd = [] \<longleftrightarrow> (\<forall>e \<in> set es. trim e = [])"
proof (cases "filter (\<lambda>e. e \<noteq> []) (map trim es) = []")
  case True
  then show ?thesis by (auto simp: pickBestEmail_def filter_empty_conv)
next
  case False
  let ?arr = "filter (\<lambda>e. e \<noteq> []) (map trim es)"
  from False have "pickBestEmail es pd = hd (sort_key (\<lambda>e. - emailScore e) (emailPool ?arr pd))"
    by (simp add: pickBestEmail_def)
  with hd_sort_key_mem [OF emailPool_nonempty [OF False], of "\<lambda>e. - emailScore e" pd]
  have "pickBestEmail es pd \<in> set (emailPool ?arr pd)" by simp
  with emailPool_subset have "pickBestEmail es pd \<in> set ?arr" by blast
  then have "pickBestEmail es pd \<noteq> []" by simp
  with False show ?thesis by (auto simp: filter_empty_conv)
qed

lemma pickBestEmail_single: "trim e \<noteq> [] \<Longrightarrow> pickBestEmail [e] pd = trim e"
  by (simp add: pickBestEmail_def emailPool_def)

section \<open>The cleaned company name\<close>


subsection \<open>characters\<close>










subsection \<open>spacing\<close>







subsection \<open>tokens\<close>











end
